theory Spec2Isabelle
  imports Complex_Main "HOL-Library.Word"
begin

section \<open>Data model\<close>

text \<open>
  The index type \<open>ttb_indx\<close> is an unsigned 64-bit integer and \<open>ttb_real\<close> is a double.
  Subscripts, sizes and loop counters of type \<open>ttb_indx\<close> are modelled as natural numbers.
  Where the source leaves that type, in the \<open>int\<close> league size and rank of a team policy and
  in the \<open>unsigned\<close> product that gives a team its block of nonzeros, the conversion is
  written out.  Values are modelled as real numbers, so every statement about a computed
  value is a statement under exact arithmetic: the order of a floating-point summation is
  not visible in this model.
\<close>

type_synonym ttb_indx = nat
type_synonym ttb_real = real

text \<open>
  The ways a call can fail to return a result: \<open>Genten::error\<close> throws a message, an
  \<open>assert\<close> fails, or a parallel loop has a data race (see the section on shared updates
  below), for which C++ defines no result.
\<close>

datatype error = GentenError string | AssertFailed string | DataRace string

text \<open>A dense factor matrix: \<open>data M ! i ! j\<close> is \<open>M.entry(i,j)\<close>.\<close>

record FacMatrix =
  nRows :: ttb_indx
  nCols :: ttb_indx
  data :: "ttb_real list list"

definition entry :: "FacMatrix \<Rightarrow> ttb_indx \<Rightarrow> ttb_indx \<Rightarrow> ttb_real" where
  "entry M i j = data M ! i ! j"

definition FacMatrix_ok :: "FacMatrix \<Rightarrow> bool" where
  "FacMatrix_ok M \<longleftrightarrow>
     length (data M) = nRows M \<and> list_all (\<lambda>r. length r = nCols M) (data M)"

text \<open>\<open>v = ttb_real(0.0)\<close>: every entry of the matrix is overwritten, the shape stays.\<close>

definition assign_scalar :: "FacMatrix \<Rightarrow> ttb_real \<Rightarrow> FacMatrix" where
  "assign_scalar v c = v\<lparr>data := map (map (\<lambda>_. c)) (data v)\<rparr>"

text \<open>
  \<open>Kokkos::atomic_add(&v.entry(k,j), t)\<close> and the plain \<open>v.entry(k,j) += t\<close>: both add \<open>t\<close> to
  the entry; they differ in what they allow other teams to do at the same time, which the
  logs of the section on shared updates record.
\<close>

definition atomic_add :: "FacMatrix \<Rightarrow> ttb_indx \<Rightarrow> ttb_indx \<Rightarrow> ttb_real \<Rightarrow> FacMatrix" where
  "atomic_add v k j t = v\<lparr>data := (data v)[k := (data v ! k)[j := data v ! k ! j + t]]\<rparr>"

definition plain_add :: "FacMatrix \<Rightarrow> ttb_indx \<Rightarrow> ttb_indx \<Rightarrow> ttb_real \<Rightarrow> FacMatrix" where
  "plain_add v k j t = v\<lparr>data := (data v)[k := (data v ! k)[j := data v ! k ! j + t]]\<rparr>"

text \<open>A K-tensor: the weight vector and one factor matrix per mode.\<close>

record Ktensor =
  weights :: "ttb_real list"
  factors :: "FacMatrix list"

definition ncomponents :: "Ktensor \<Rightarrow> ttb_indx" where
  "ncomponents u = length (weights u)"

definition ndims_k :: "Ktensor \<Rightarrow> ttb_indx" where
  "ndims_k u = length (factors u)"

text \<open>
  Modelled from the spec: \<open>Ktensor::isConsistent()\<close>, which is not part of these sources.
  The spec defines it as: every factor has as many columns as the weight vector has entries.
\<close>

definition isConsistent :: "Ktensor \<Rightarrow> bool" where
  "isConsistent u \<longleftrightarrow> list_all (\<lambda>M. nCols M = ncomponents u) (factors u)"

text \<open>
  A sparse tensor in coordinate format, as the constructor of \<open>Genten::Sptensor\<close> fills it:
  \<open>subs X ! i ! d\<close> is \<open>X.subscript(i,d)\<close>, \<open>vals X ! i\<close> is \<open>X.value(i)\<close>.
\<close>

record Sptensor =
  siz :: "ttb_indx list"
  subs :: "ttb_indx list list"
  vals :: "ttb_real list"

definition ndims :: "'a Sptensor_scheme \<Rightarrow> ttb_indx" where
  "ndims X = length (siz X)"

definition nnz :: "'a Sptensor_scheme \<Rightarrow> ttb_indx" where
  "nnz X = length (vals X)"

definition subscript :: "'a Sptensor_scheme \<Rightarrow> ttb_indx \<Rightarrow> ttb_indx \<Rightarrow> ttb_indx" where
  "subscript X i d = subs X ! i ! d"

definition "value" :: "'a Sptensor_scheme \<Rightarrow> ttb_indx \<Rightarrow> ttb_real" where
  "value X i = vals X ! i"

text \<open>The invariant of the data model: one subscript row per value, every subscript in range.\<close>

definition Sptensor_ok :: "'a Sptensor_scheme \<Rightarrow> bool" where
  "Sptensor_ok X \<longleftrightarrow>
     length (subs X) = nnz X \<and>
     list_all (\<lambda>row. length row = ndims X \<and> list_all2 (\<lambda>s sz. s < sz) row (siz X)) (subs X)"

text \<open>The permuted variant adds \<open>perm X ! i ! d\<close> = \<open>X.getPerm(i,d)\<close>.\<close>

record Sptensor_perm = Sptensor +
  perm :: "ttb_indx list list"

definition getPerm :: "'a Sptensor_perm_scheme \<Rightarrow> ttb_indx \<Rightarrow> ttb_indx \<Rightarrow> ttb_indx" where
  "getPerm X i d = perm X ! i ! d"

text \<open>The row-indexed variant adds \<open>rowptr X ! d ! r\<close> = \<open>X.getPermRowBegin(r,d)\<close>.\<close>

record Sptensor_row = Sptensor_perm +
  rowptr :: "ttb_indx list list"

definition getPermRowBegin :: "'a Sptensor_row_scheme \<Rightarrow> ttb_indx \<Rightarrow> ttb_indx \<Rightarrow> ttb_indx" where
  "getPermRowBegin X r d = rowptr X ! d ! r"

section \<open>Team policies and 32-bit arithmetic\<close>

text \<open>
  \<open>Kokkos::TeamPolicy\<close>, which is not part of these sources, is constructed from \<open>int\<close>s and
  hands every team its \<open>league_rank()\<close> as an \<open>int\<close>.  The kernels compute the league size as a
  \<open>ttb_indx\<close>; \<open>to_int\<close> is its conversion to the 32-bit \<open>int\<close> of the policy (the low 32 bits,
  read in two's complement).  The league has the ranks from 0 up to that size; a league
  whose size is not positive has no team.
\<close>

definition to_int :: "ttb_indx \<Rightarrow> int" where
  "to_int k = (if k mod 2 ^ 32 < 2 ^ 31 then int (k mod 2 ^ 32) else int (k mod 2 ^ 32) - 2 ^ 32)"

definition league_ranks :: "ttb_indx \<Rightarrow> nat list" where
  "league_ranks N = [0..<nat (to_int N)]"

text \<open>
  The product of a league rank and a block size given as an \<open>unsigned\<close> template argument is
  formed in \<open>unsigned\<close>, that is modulo \<open>2\<^sup>3\<^sup>2\<close>, before it is stored in a \<open>ttb_indx\<close>.
\<close>

definition to_unsigned :: "nat \<Rightarrow> nat" where
  "to_unsigned k = k mod 2 ^ 32"

section \<open>Shared updates of the output matrix\<close>

text \<open>
  The teams of a league run concurrently and share the output matrix.  An atomic addition
  may meet any other atomic addition to the same entry, and under exact arithmetic the
  additions commute; so a league whose updates are all atomic is run team after team.
  A plain update may meet no other update of the same entry: when one team updates a row of
  the matrix plainly and another team updates the same row at all, the run has a data race.
  (All teams walk the same column blocks, so two teams that meet in a row meet in an entry.)
  Every team therefore returns, with the matrix, the log of the rows it has updated, each
  with the flag "atomic"; a league whose logs conflict has the result \<open>DataRace\<close>, and
  otherwise the result of running the teams one after the other.
\<close>

type_synonym access = "ttb_indx \<times> bool"

definition conflict :: "access list \<Rightarrow> access list \<Rightarrow> bool" where
  "conflict l l' \<longleftrightarrow> list_ex (\<lambda>(r, atomic). \<not> atomic \<and> list_ex (\<lambda>(r', atomic'). r' = r) l') l"

definition race_free :: "access list list \<Rightarrow> bool" where
  "race_free logs \<longleftrightarrow>
     list_all (\<lambda>t. list_all (\<lambda>t'. t = t' \<or> \<not> conflict (logs ! t) (logs ! t'))
                         [0..<length logs])
              [0..<length logs]"

definition parallel_for_teams ::
  "nat list \<Rightarrow> (nat \<Rightarrow> FacMatrix \<Rightarrow> FacMatrix \<times> access list) \<Rightarrow> FacMatrix \<Rightarrow> string \<Rightarrow>
   error + FacMatrix" where
  "parallel_for_teams ranks team v name =
     (let (v', logs) = fold (\<lambda>league (v, logs). let (v', log) = team league v
                                               in (v', logs @ [log]))
                            ranks (v, [])
      in if race_free logs then Inr v' else Inl (DataRace name))"

section \<open>The loop over column blocks\<close>

text \<open>
  Every kernel walks the \<open>nc\<close> columns in blocks of the compile-time size \<open>FacBlockSize\<close>:
  \<^verbatim>\<open>for (unsigned j=0; j<nc; j+=FacBlockSize)
    if (j+FacBlockSize <= nc) kernel.run<FacBlockSize>(j, FacBlockSize);
    else                      kernel.run<0>(j, nc-j);\<close>
  The block size is a positive template argument; the guard \<open>0 < FB\<close> only records that.
\<close>

function fac_blocks :: "nat \<Rightarrow> nat \<Rightarrow> (nat \<Rightarrow> nat \<Rightarrow> 'a \<Rightarrow> 'a) \<Rightarrow> nat \<Rightarrow> 'a \<Rightarrow> 'a" where
  "fac_blocks FB nc run j a =
     (if j < nc \<and> 0 < FB
      then fac_blocks FB nc run (j + FB) (if j + FB \<le> nc then run j FB a else run j (nc - j) a)
      else a)"
  by pat_completeness auto
termination
  by (relation "measure (\<lambda>(FB, nc, run, j, a). nc - j)") auto

declare fac_blocks.simps [simp del]

section \<open>MTTKRP, coordinate format\<close>

text \<open>
  \<open>MTTKRP_KernelBlock::run\<close> for nonzero \<open>i\<close> and the columns \<open>j, \<dots>, j+nj-1\<close>, on a host
  execution space (team size and vector length 1): \<open>tmp\<close> starts as value times weights, is
  multiplied by the row of every factor but the \<open>n\<close>-th, and is added to row
  \<open>k = X.subscript(i,n)\<close> of \<open>v\<close>.
\<close>

definition mttkrp_tmp ::
  "'a Sptensor_scheme \<Rightarrow> Ktensor \<Rightarrow> nat \<Rightarrow> ttb_indx \<Rightarrow> nat \<Rightarrow> nat \<Rightarrow> ttb_real list" where
  "mttkrp_tmp X u n i j nj =
     fold (\<lambda>m tmp. if m \<noteq> n
                    then map (\<lambda>jj. tmp ! jj * entry (factors u ! m) (subscript X i m) (j + jj)) [0..<nj]
                    else tmp)
          [0..<ndims_k u]
          (map (\<lambda>jj. value X i * weights u ! (j + jj)) [0..<nj])"

definition MTTKRP_KernelBlock_run ::
  "'a Sptensor_scheme \<Rightarrow> Ktensor \<Rightarrow> nat \<Rightarrow> ttb_indx \<Rightarrow> nat \<Rightarrow> nat \<Rightarrow> FacMatrix \<Rightarrow> FacMatrix" where
  "MTTKRP_KernelBlock_run X u n i j nj v =
     (let k = subscript X i n;
          tmp = mttkrp_tmp X u n i j nj
      in fold (\<lambda>jj v. atomic_add v k (j + jj) (tmp ! jj)) [0..<nj] v)"

text \<open>
  \<open>mttkrp_kernel<FacBlockSize>\<close> on a host execution space: \<open>TeamSize = 1\<close>, the policy asks
  for \<open>N = (nnz+TeamSize-1)/TeamSize\<close> teams, and the team of rank \<open>league\<close> handles the nonzero
  \<open>i = league_rank()*team_size()+team_rank()\<close>, a sum of \<open>int\<close>s that stays below \<open>2\<^sup>3\<^sup>1\<close>; it
  returns at once when \<open>i \<ge> nnz\<close>.  The teams only interact through the atomic additions into
  \<open>v\<close>, which commute under exact arithmetic, so the league is run in the order of its ranks.
\<close>

definition mttkrp_kernel ::
  "nat \<Rightarrow> 'a Sptensor_scheme \<Rightarrow> Ktensor \<Rightarrow> nat \<Rightarrow> FacMatrix \<Rightarrow> FacMatrix" where
  "mttkrp_kernel FacBlockSize X u n v =
     (let TeamSize = 1;
          N = (nnz X + TeamSize - 1) div TeamSize
      in fold (\<lambda>league v.
                 let i = league * TeamSize + 0
                 in if i \<ge> nnz X then v
                    else fac_blocks FacBlockSize (ncomponents u) (MTTKRP_KernelBlock_run X u n i) 0 v)
              (league_ranks N) v)"

text \<open>The assertions on the shapes that open every \<open>mttkrp\<close> variant.\<close>

definition mttkrp_asserts ::
  "'a Sptensor_scheme \<Rightarrow> Ktensor \<Rightarrow> nat \<Rightarrow> FacMatrix \<Rightarrow> error option" where
  "mttkrp_asserts X u n v =
     (if ndims X \<noteq> ndims_k u then Some (AssertFailed ''X.ndims() == nd'')
      else if \<not> isConsistent u then Some (AssertFailed ''u.isConsistent()'')
      else if \<not> list_all (\<lambda>i. i \<noteq> n \<longrightarrow> nRows (factors u ! i) = siz X ! i) [0..<ndims_k u]
        then Some (AssertFailed ''u[i].nRows() == X.size(i)'')
      else if nRows v \<noteq> siz X ! n then Some (AssertFailed ''v.nRows() == X.size(n)'')
      else if nCols v \<noteq> ncomponents u then Some (AssertFailed ''v.nCols() == nc'')
      else None)"

text \<open>\<open>Genten::mttkrp(X,u,n,v)\<close> for \<open>SptensorT\<close>: zero \<open>v\<close>, then dispatch on the rank.\<close>

definition mttkrp :: "'a Sptensor_scheme \<Rightarrow> Ktensor \<Rightarrow> nat \<Rightarrow> FacMatrix \<Rightarrow> error + FacMatrix" where
  "mttkrp X u n v =
     (case mttkrp_asserts X u n v of
        Some e \<Rightarrow> Inl e
      | None \<Rightarrow>
          (let nc = ncomponents u; v0 = assign_scalar v 0
           in Inr (if nc = 1 then mttkrp_kernel 1 X u n v0
                   else if nc = 2 then mttkrp_kernel 2 X u n v0
                   else if nc \<le> 4 then mttkrp_kernel 4 X u n v0
                   else if nc \<le> 8 then mttkrp_kernel 8 X u n v0
                   else if nc \<le> 16 then mttkrp_kernel 16 X u n v0
                   else mttkrp_kernel 32 X u n v0)))"

section \<open>The MTTKRP contract\<close>





section \<open>Scenario A of the spec\<close>

text \<open>
  The \<open>2\<times>2\<times>2\<close> tensor with nonzeros \<open>(0,0,0)=1\<close>, \<open>(1,0,1)=2\<close>, \<open>(0,1,1)=3\<close>; the K-tensor
  whose three factors are the \<open>2\<times>1\<close> identity \<open>[[1],[0]]\<close> with weight 1; and, for
  comparison, the K-tensor whose factors are the \<open>2\<times>1\<close> matrix of ones.
\<close>

definition scenarioA_X :: Sptensor where
  "scenarioA_X = \<lparr>siz = [2, 2, 2], subs = [[0, 0, 0], [1, 0, 1], [0, 1, 1]], vals = [1, 2, 3]\<rparr>"

definition mat21 :: "real \<Rightarrow> real \<Rightarrow> FacMatrix" where
  "mat21 a b = \<lparr>nRows = 2, nCols = 1, data = [[a], [b]]\<rparr>"

definition scenarioA_U :: Ktensor where
  "scenarioA_U = \<lparr>weights = [1], factors = [mat21 1 0, mat21 1 0, mat21 1 0]\<rparr>"

definition scenarioA_U_ones :: Ktensor where
  "scenarioA_U_ones = \<lparr>weights = [1], factors = [mat21 1 1, mat21 1 1, mat21 1 1]\<rparr>"

section \<open>Inner product of a sparse tensor and a K-tensor\<close>

text \<open>
  Modelled from the spec: \<open>Ktensor::isConsistent(sizes)\<close>, which is not part of these sources:
  the K-tensor is consistent, has one factor per mode, and factor \<open>d\<close> has \<open>size[d]\<close> rows.
\<close>

definition isConsistent_siz :: "Ktensor \<Rightarrow> ttb_indx list \<Rightarrow> bool" where
  "isConsistent_siz u sz \<longleftrightarrow>
     isConsistent u \<and> length (factors u) = length sz \<and>
     list_all2 (\<lambda>M s. nRows M = s) (factors u) sz"

text \<open>
  \<open>InnerProductKernel<ExecSpace,RowBlockSize,FacBlockSize,1,1>::run\<close>: for the nonzeros
  \<open>i_block, \<dots>, i_block+RowBlockSize-1\<close> (those below \<open>nnz\<close>) and the columns \<open>j, \<dots>, j+nj-1\<close>,
  \<open>tmp\<close> is the value times the weights times the rows of all factors, \<open>val\<close> collects
  \<open>tmp\<close> over the block, and \<open>val\<close> is summed into \<open>d\<close>.
\<close>

definition innerprod_tmp ::
  "'a Sptensor_scheme \<Rightarrow> Ktensor \<Rightarrow> ttb_real list \<Rightarrow> ttb_indx \<Rightarrow> nat \<Rightarrow> nat \<Rightarrow> ttb_real list" where
  "innerprod_tmp s u lambda i j nj =
     fold (\<lambda>m tmp. map (\<lambda>jj. tmp ! jj * entry (factors u ! m) (subscript s i m) (j + jj)) [0..<nj])
          [0..<ndims_k u]
          (map (\<lambda>jj. value s i * lambda ! (j + jj)) [0..<nj])"

definition InnerProductKernel_run ::
  "nat \<Rightarrow> 'a Sptensor_scheme \<Rightarrow> Ktensor \<Rightarrow> ttb_real list \<Rightarrow> ttb_indx \<Rightarrow> nat \<Rightarrow> nat \<Rightarrow>
   ttb_real \<Rightarrow> ttb_real" where
  "InnerProductKernel_run RowBlockSize s u lambda i_block j nj d =
     (let val = fold (\<lambda>ii val.
                        let i = i_block + ii
                        in if i < nnz s
                           then (let tmp = innerprod_tmp s u lambda i j nj
                                 in map (\<lambda>jj. val ! jj + tmp ! jj) [0..<nj])
                           else val)
                     [0..<RowBlockSize] (replicate nj 0)
      in fold (\<lambda>jj d. d + val ! jj) [0..<nj] d)"

text \<open>
  \<open>innerprod_kernel<FacBlockSize>\<close> on a host execution space: row blocks of 32 nonzeros,
  one team per block, the reduction variable \<open>d\<close> summed over the league.  The block of the
  team of rank \<open>league\<close> starts at \<open>i_block = league_rank()*RowBlockSize\<close>, a product formed in
  \<open>unsigned\<close>.
\<close>

definition innerprod_kernel ::
  "nat \<Rightarrow> 'a Sptensor_scheme \<Rightarrow> Ktensor \<Rightarrow> ttb_real list \<Rightarrow> ttb_real" where
  "innerprod_kernel FacBlockSize s u lambda =
     (let RowBlockSize = 32;
          N = (nnz s + RowBlockSize - 1) div RowBlockSize
      in fold (\<lambda>league d.
                 let i_block = to_unsigned (league * RowBlockSize)
                 in fac_blocks FacBlockSize (ncomponents u)
                      (InnerProductKernel_run RowBlockSize s u lambda i_block) 0 d)
              (league_ranks N) 0)"

text \<open>\<open>Genten::innerprod(s,u,lambda)\<close>: the assertions, then the dispatch on the rank.\<close>

definition innerprod :: "'a Sptensor_scheme \<Rightarrow> Ktensor \<Rightarrow> ttb_real list \<Rightarrow> error + ttb_real" where
  "innerprod s u lambda =
     (let nc = ncomponents u; nd = ndims_k u
      in if nd \<noteq> ndims s then Inl (AssertFailed ''nd == s.ndims()'')
         else if \<not> isConsistent_siz u (siz s) then Inl (AssertFailed ''u.isConsistent(s.size())'')
         else if nc \<noteq> length lambda then Inl (AssertFailed ''nc == lambda.size()'')
         else Inr (if nc = 1 then innerprod_kernel 1 s u lambda
                   else if nc = 2 then innerprod_kernel 2 s u lambda
                   else if nc \<le> 4 then innerprod_kernel 4 s u lambda
                   else if nc \<le> 8 then innerprod_kernel 8 s u lambda
                   else if nc \<le> 16 then innerprod_kernel 16 s u lambda
                   else innerprod_kernel 32 s u lambda))"




section \<open>The residual norm of CP-ALS\<close>

text \<open>
  \<open>DBL_MIN\<close> of \<open><float.h>\<close>: the smallest positive normalised double, \<open>2\<^sup>-\<^sup>1\<^sup>0\<^sup>2\<^sup>2\<close>.
\<close>

definition DBL_MIN :: real where
  "DBL_MIN = 1 / 2 ^ 1022"

text \<open>
  \<open>computeResNorm\<close>.  The macro \<open>MACHINE_EPSILON\<close> is defined outside these sources and is
  a parameter here.  \<open>Genten::error\<close> throws; the number appended to its message is left out.
\<close>

definition computeResNorm :: "real \<Rightarrow> ttb_real \<Rightarrow> ttb_real \<Rightarrow> ttb_real \<Rightarrow> error + ttb_real" where
  "computeResNorm MACHINE_EPSILON xNorm mNorm xDotm =
     (let d = (xNorm * xNorm) + (mNorm * mNorm) - (2 * xDotm);
          dSmallNegThresh = - (xDotm * sqrt MACHINE_EPSILON * 1000)
      in if d > DBL_MIN then Inr (sqrt d)
         else if d > dSmallNegThresh then Inr 0
         else Inl (GentenError ''Genten::cpals_core - residual norm is negative''))"

text \<open>
  The rule in the words of the spec: the square root when \<open>residual\<^sup>2 > 0\<close>, zero when
  \<open>residual\<^sup>2 > -\<langle>X,model\<rangle>\<cdot>\<surd>\<epsilon>\<cdot>10\<^sup>3\<close>, the error \<open>NegativeResidualNorm\<close> otherwise.
\<close>

definition residual_sq :: "real \<Rightarrow> real \<Rightarrow> real \<Rightarrow> real" where
  "residual_sq xNorm mNorm xDotm = xNorm\<^sup>2 + mNorm\<^sup>2 - 2 * xDotm"

definition resnorm_spec :: "real \<Rightarrow> real \<Rightarrow> real \<Rightarrow> real \<Rightarrow> error + real" where
  "resnorm_spec eps xNorm mNorm xDotm =
     (if residual_sq xNorm mNorm xDotm > 0 then Inr (sqrt (residual_sq xNorm mNorm xDotm))
      else if residual_sq xNorm mNorm xDotm > - (xDotm * sqrt eps * 10 ^ 3) then Inr 0
      else Inl (GentenError ''Genten::cpals_core - residual norm is negative''))"

section \<open>Permutations and row pointers\<close>

text \<open>
  The invariant of the permuted variant: \<open>perm\<close> has one row per nonzero and one column per
  mode; column \<open>d\<close> is a permutation of the positions \<open>0, \<dots>, nnz-1\<close> that lists the nonzeros
  by non-decreasing subscript in mode \<open>d\<close>.
\<close>

definition Sptensor_perm_ok :: "'a Sptensor_perm_scheme \<Rightarrow> bool" where
  "Sptensor_perm_ok X \<longleftrightarrow>
     Sptensor_ok X \<and> length (perm X) = nnz X \<and>
     list_all (\<lambda>row. length row = ndims X) (perm X) \<and>
     list_all (\<lambda>d. distinct (map (\<lambda>i. getPerm X i d) [0..<nnz X]) \<and>
                    set (map (\<lambda>i. getPerm X i d) [0..<nnz X]) = set [0..<nnz X] \<and>
                    sorted (map (\<lambda>i. subscript X (getPerm X i d) d) [0..<nnz X]))
              [0..<ndims X]"

text \<open>\<open>for (k=lo; k<=hi; ++k) rowptr_n(k) = x\<close>\<close>

definition fill_rowptr :: "ttb_indx list \<Rightarrow> nat \<Rightarrow> nat \<Rightarrow> ttb_indx \<Rightarrow> ttb_indx list" where
  "fill_rowptr rowptr_n lo hi x = fold (\<lambda>k rp. rp[k := x]) [lo..<Suc hi] rowptr_n"

text \<open>The body of the parallel loop of \<open>createRowPtrImpl\<close>, for mode \<open>n\<close> and index \<open>i\<close>.\<close>

definition rowptr_body ::
  "ttb_indx list list \<Rightarrow> ttb_indx list list \<Rightarrow> ttb_indx list \<Rightarrow> nat \<Rightarrow> nat \<Rightarrow>
   ttb_indx list \<Rightarrow> ttb_indx list" where
  "rowptr_body perm_v subs_v siz_v n i rowptr_n =
     (let sz = length perm_v
      in if i = 0 then
           (let s = subs_v ! (perm_v ! 0 ! n) ! n
            in fill_rowptr rowptr_n 0 s 0)
         else if i = sz then
           (let sm = subs_v ! (perm_v ! (sz - 1) ! n) ! n
            in fill_rowptr rowptr_n (sm + 1) (siz_v ! n) sz)
         else
           (let s = subs_v ! (perm_v ! i ! n) ! n;
                sm = subs_v ! (perm_v ! (i - 1) ! n) ! n
            in if s \<noteq> sm then fill_rowptr rowptr_n (sm + 1) s i else rowptr_n))"

text \<open>
  \<open>createRowPtrImpl\<close>.  For every mode the array \<open>rowptr_n\<close> of \<open>siz[n]+1\<close> entries is
  allocated without initialisation: its first contents are the arbitrary \<open>garbage n\<close>.  The
  iterations \<open>0, \<dots>, sz\<close> of the parallel loop run in an order the runtime chooses, given
  here by the list \<open>sched n\<close>.  The number of modes is the second extent of \<open>perm\<close>, which
  is the length of \<open>siz\<close>.
\<close>

definition createRowPtrImpl ::
  "(nat \<Rightarrow> nat list) \<Rightarrow> (nat \<Rightarrow> nat \<Rightarrow> ttb_indx) \<Rightarrow>
   ttb_indx list list \<Rightarrow> ttb_indx list list \<Rightarrow> ttb_indx list \<Rightarrow> ttb_indx list list" where
  "createRowPtrImpl sched garbage perm_v subs_v siz_v =
     (let nNumDims = length siz_v
      in map (\<lambda>n. fold (rowptr_body perm_v subs_v siz_v n) (sched n)
                       (map (garbage n) [0..<siz_v ! n + 1]))
             [0..<nNumDims])"

text \<open>A schedule runs each of the iterations \<open>0, \<dots>, sz\<close> once, for every mode.\<close>

definition schedule_ok :: "(nat \<Rightarrow> nat list) \<Rightarrow> nat \<Rightarrow> nat \<Rightarrow> bool" where
  "schedule_ok sched sz nd \<longleftrightarrow>
     list_all (\<lambda>n. distinct (sched n) \<and> set (sched n) = set [0..<sz + 1]) [0..<nd]"

text \<open>\<open>Sptensor_row::createRowPtr\<close> stores the result in the tensor.\<close>

definition createRowPtr ::
  "(nat \<Rightarrow> nat list) \<Rightarrow> (nat \<Rightarrow> nat \<Rightarrow> ttb_indx) \<Rightarrow> 'a Sptensor_row_scheme \<Rightarrow> 'a Sptensor_row_scheme" where
  "createRowPtr sched garbage X = X\<lparr>rowptr := createRowPtrImpl sched garbage (perm X) (subs X) (siz X)\<rparr>"

text \<open>
  For the subscripts \<open>f 0 \<le> \<dots> \<le> f (sz-1)\<close> of a mode in permuted order, \<open>i\<close> is the cut
  position of the row \<open>k\<close> when the positions below \<open>i\<close> hold rows below \<open>k\<close> and the positions
  from \<open>i\<close> on hold rows from \<open>k\<close> on.
\<close>

definition cut :: "(nat \<Rightarrow> nat) \<Rightarrow> nat \<Rightarrow> nat \<Rightarrow> nat \<Rightarrow> bool" where
  "cut f sz k i \<longleftrightarrow> i \<le> sz \<and> (\<forall>j<i. f j < k) \<and> (\<forall>j. i \<le> j \<and> j < sz \<longrightarrow> k \<le> f j)"

text \<open>The positions that iteration \<open>i\<close> of the loop writes (it writes \<open>i\<close> there).\<close>

definition region_lo :: "(nat \<Rightarrow> nat) \<Rightarrow> nat \<Rightarrow> nat" where
  "region_lo f i = (if i = 0 then 0 else f (i - 1) + 1)"

definition region_hi :: "(nat \<Rightarrow> nat) \<Rightarrow> nat \<Rightarrow> nat \<Rightarrow> nat \<Rightarrow> nat" where
  "region_hi f sz S i = (if i = 0 then f 0 else if i = sz then S else f i)"

text \<open>The tensor of Scenario A with its permutations, before the row pointers are built.\<close>

definition scenarioA_row :: Sptensor_row where
  "scenarioA_row = \<lparr>siz = [2, 2, 2], subs = [[0, 0, 0], [1, 0, 1], [0, 1, 1]], vals = [1, 2, 3],
                     perm = [[0, 0, 0], [2, 1, 1], [1, 2, 2]], rowptr = []\<rparr>"

text \<open>
  What the spec asks of the row pointer of mode \<open>d\<close>: its length, its first and last entry,
  monotonicity, the nonzeros of every row, and the policy for rows before the first, after
  the last and without nonzeros.
\<close>

definition rowptr_correct :: "'a Sptensor_row_scheme \<Rightarrow> 'a Sptensor_row_scheme \<Rightarrow> nat \<Rightarrow> bool" where
  "rowptr_correct X X' d \<longleftrightarrow>
    length (rowptr X') = ndims X \<and>
    length (rowptr X' ! d) = siz X ! d + 1 \<and>
    getPermRowBegin X' 0 d = 0 \<and>
    getPermRowBegin X' (siz X ! d) d = nnz X \<and>
    (\<forall>r < siz X ! d. getPermRowBegin X' r d \<le> getPermRowBegin X' (r + 1) d) \<and>
    (\<forall>r < siz X ! d.
        (\<lambda>i. getPerm X i d) ` {i. getPermRowBegin X' r d \<le> i \<and> i < getPermRowBegin X' (r + 1) d}
        = {k. k < nnz X \<and> subscript X k d = r}) \<and>
    (\<forall>rmin. (\<exists>k<nnz X. subscript X k d = rmin) \<and> (\<forall>k<nnz X. rmin \<le> subscript X k d) \<longrightarrow>
        (\<forall>j \<le> rmin. getPermRowBegin X' j d = 0)) \<and>
    (\<forall>rmax. (\<exists>k<nnz X. subscript X k d = rmax) \<and> (\<forall>k<nnz X. subscript X k d \<le> rmax) \<longrightarrow>
        (\<forall>j. rmax < j \<and> j \<le> siz X ! d \<longrightarrow> getPermRowBegin X' j d = nnz X)) \<and>
    (\<forall>r < siz X ! d. (\<forall>k<nnz X. subscript X k d \<noteq> r) \<longrightarrow>
        getPermRowBegin X' (r + 1) d = getPermRowBegin X' r d)"

section \<open>MTTKRP, permuted coordinate format\<close>

text \<open>\<open>ttb_indx(-1)\<close>, the largest value of the 64-bit index type, marks "no row".\<close>

definition invalid_row :: ttb_indx where
  "invalid_row = 2 ^ 64 - 1"

text \<open>
  The vector operations of \<open>TinyVec\<close> used on the accumulator \<open>val\<close> of \<open>nj\<close> entries:
  \<open>Kokkos::atomic_add(&v.entry(row,j), val)\<close> and \<open>val.store_plus(&v.entry(row,j))\<close> both add
  \<open>val[jj]\<close> to \<open>v.entry(row,j+jj)\<close>; the first does so atomically, the second plainly.
\<close>

definition atomic_add_vec :: "FacMatrix \<Rightarrow> ttb_indx \<Rightarrow> nat \<Rightarrow> nat \<Rightarrow> ttb_real list \<Rightarrow> FacMatrix" where
  "atomic_add_vec v row j nj val = fold (\<lambda>jj v. atomic_add v row (j + jj) (val ! jj)) [0..<nj] v"

definition store_plus :: "FacMatrix \<Rightarrow> ttb_indx \<Rightarrow> nat \<Rightarrow> nat \<Rightarrow> ttb_real list \<Rightarrow> FacMatrix" where
  "store_plus v row j nj val = fold (\<lambda>jj v. plain_add v row (j + jj) (val ! jj)) [0..<nj] v"

text \<open>
  The local variables of \<open>MTTKRP_PermKernelBlock::run\<close>, the output matrix, and the log of the
  team's updates of it.
\<close>

record perm_state =
  ps_row_prev :: ttb_indx
  ps_row :: ttb_indx
  ps_first_row :: ttb_indx
  ps_p :: ttb_indx
  ps_x_val :: ttb_real
  ps_val :: "ttb_real list"
  ps_v :: FacMatrix
  ps_log :: "access list"

text \<open>\<open>tmp.load(lambda+j); tmp *= x_val;\<close> and then \<open>tmp *= rowptr\<close> for every mode but \<open>n\<close>.\<close>

definition perm_tmp ::
  "'a Sptensor_perm_scheme \<Rightarrow> Ktensor \<Rightarrow> nat \<Rightarrow> ttb_indx \<Rightarrow> ttb_real \<Rightarrow> nat \<Rightarrow> nat \<Rightarrow> ttb_real list" where
  "perm_tmp X u n p x_val j nj =
     fold (\<lambda>m tmp. if m \<noteq> n
                    then map (\<lambda>jj. tmp ! jj * entry (factors u ! m) (subscript X p m) (j + jj)) [0..<nj]
                    else tmp)
          [0..<ndims_k u]
          (map (\<lambda>jj. weights u ! (j + jj) * x_val) [0..<nj])"

text \<open>One pass of the loop over the row block, for the position \<open>i = i_block + ii\<close>.\<close>

definition perm_iter ::
  "'a Sptensor_perm_scheme \<Rightarrow> Ktensor \<Rightarrow> nat \<Rightarrow> ttb_indx \<Rightarrow> nat \<Rightarrow> nat \<Rightarrow> nat \<Rightarrow>
   perm_state \<Rightarrow> perm_state" where
  "perm_iter X u n i_block j nj ii st =
     (let i = i_block + ii;
          st1 = (if i \<ge> nnz X then st\<lparr>ps_row := invalid_row\<rparr>
                 else (let p = getPerm X i n
                       in st\<lparr>ps_p := p, ps_x_val := value X p, ps_row := subscript X p n\<rparr>));
          st2 = (if ii = 0 then st1\<lparr>ps_first_row := ps_row st1\<rparr> else st1);
          st3 = (if ps_row st2 \<noteq> ps_row_prev st2
                 then (let st' = (if ps_row_prev st2 \<noteq> invalid_row
                                  then st2\<lparr>ps_v := (if ps_row_prev st2 = ps_first_row st2
                                                     then atomic_add_vec (ps_v st2) (ps_row_prev st2) j nj (ps_val st2)
                                                     else store_plus (ps_v st2) (ps_row_prev st2) j nj (ps_val st2)),
                                           ps_log := ps_log st2 @
                                                       [(ps_row_prev st2, ps_row_prev st2 = ps_first_row st2)],
                                           ps_val := replicate nj 0\<rparr>
                                  else st2)
                       in st'\<lparr>ps_row_prev := ps_row st2\<rparr>)
                 else st2)
      in if ps_row st3 \<noteq> invalid_row
         then (let tmp = perm_tmp X u n (ps_p st3) (ps_x_val st3) j nj
               in st3\<lparr>ps_val := map (\<lambda>jj. ps_val st3 ! jj + tmp ! jj) [0..<nj]\<rparr>)
         else st3)"

text \<open>\<open>MTTKRP_PermKernelBlock::run\<close>: the loop over the block, then the last row is summed in.\<close>

definition MTTKRP_PermKernelBlock_run ::
  "nat \<Rightarrow> 'a Sptensor_perm_scheme \<Rightarrow> Ktensor \<Rightarrow> nat \<Rightarrow> ttb_indx \<Rightarrow> nat \<Rightarrow> nat \<Rightarrow>
   FacMatrix \<times> access list \<Rightarrow> FacMatrix \<times> access list" where
  "MTTKRP_PermKernelBlock_run RowBlockSize X u n i_block j nj vl =
     (let st0 = \<lparr>ps_row_prev = invalid_row, ps_row = invalid_row, ps_first_row = invalid_row,
                 ps_p = invalid_row, ps_x_val = 0, ps_val = replicate nj 0,
                 ps_v = fst vl, ps_log = snd vl\<rparr>;
          st = fold (perm_iter X u n i_block j nj) [0..<RowBlockSize] st0
      in if ps_row st \<noteq> invalid_row
         then (atomic_add_vec (ps_v st) (ps_row st) j nj (ps_val st), ps_log st @ [(ps_row st, True)])
         else (ps_v st, ps_log st))"

text \<open>
  \<open>mttkrp_perm_kernel<VS>\<close> on a host execution space: row blocks of 128 positions, one team
  per block (\<open>TeamSize = 1\<close>), column blocks of \<open>4\<cdot>VS\<close>, \<open>3\<cdot>VS\<close>, \<open>2\<cdot>VS\<close> or \<open>VS\<close> columns by the
  rank.  The block of the team of rank \<open>league\<close> starts at
  \<open>i_block = league_rank()*RowBlockSize*TeamSize + RowBlockSize*team_rank()\<close>, formed in
  \<open>unsigned\<close>.
\<close>

definition mttkrp_perm_league ::
  "nat \<Rightarrow> 'a Sptensor_perm_scheme \<Rightarrow> Ktensor \<Rightarrow> nat \<Rightarrow> FacMatrix \<Rightarrow> error + FacMatrix" where
  "mttkrp_perm_league FacBlockSize X u n v =
     (let RowBlockSize = 128; TeamSize = 1;
          RowsPerTeam = TeamSize * RowBlockSize;
          N = (nnz X + RowsPerTeam - 1) div RowsPerTeam
      in parallel_for_teams (league_ranks N)
           (\<lambda>league v.
              let i_block = to_unsigned (league * RowBlockSize * TeamSize + RowBlockSize * 0)
              in fac_blocks FacBlockSize (ncomponents u)
                   (MTTKRP_PermKernelBlock_run RowBlockSize X u n i_block) 0 (v, []))
           v ''Genten::mttkrp_perm_kernel'')"

definition mttkrp_perm_kernel ::
  "nat \<Rightarrow> 'a Sptensor_perm_scheme \<Rightarrow> Ktensor \<Rightarrow> nat \<Rightarrow> FacMatrix \<Rightarrow> error + FacMatrix" where
  "mttkrp_perm_kernel VS X u n v =
     (let nc = ncomponents u
      in if nc > 3 * VS then mttkrp_perm_league (4 * VS) X u n v
         else if nc > 2 * VS then mttkrp_perm_league (3 * VS) X u n v
         else if nc > VS then mttkrp_perm_league (2 * VS) X u n v
         else mttkrp_perm_league VS X u n v)"

text \<open>\<open>mttkrp_perm\<close>, which \<open>Genten::mttkrp\<close> calls for \<open>SptensorT_perm\<close>.\<close>

definition mttkrp_perm ::
  "'a Sptensor_perm_scheme \<Rightarrow> Ktensor \<Rightarrow> nat \<Rightarrow> FacMatrix \<Rightarrow> error + FacMatrix" where
  "mttkrp_perm X u n v =
     (case mttkrp_asserts X u n v of
        Some e \<Rightarrow> Inl e
      | None \<Rightarrow>
          (let nc = ncomponents u; v0 = assign_scalar v 0
           in if nc \<ge> 96 then mttkrp_perm_kernel 32 X u n v0
              else if nc \<ge> 48 then mttkrp_perm_kernel 16 X u n v0
              else if nc \<ge> 8 then mttkrp_perm_kernel 8 X u n v0
              else if nc \<ge> 4 then mttkrp_perm_kernel 4 X u n v0
              else if nc \<ge> 2 then mttkrp_perm_kernel 2 X u n v0
              else mttkrp_perm_kernel 1 X u n v0))"

section \<open>MTTKRP, row-indexed format\<close>

text \<open>
  The work of one league member of \<open>Genten::mttkrp\<close> for \<open>SptensorT_row\<close> (team size 1): the
  nonzeros of the row are summed for every column and added to row \<open>k\<close> of \<open>v\<close> by the plain
  \<open>v.entry(k,j) += val\<close>.
\<close>

definition mttkrp_row_val ::
  "'a Sptensor_row_scheme \<Rightarrow> Ktensor \<Rightarrow> nat \<Rightarrow> ttb_indx \<Rightarrow> ttb_indx \<Rightarrow> nat \<Rightarrow> ttb_real" where
  "mttkrp_row_val X u n i_begin i_end j =
     (let w = weights u ! j
      in fold (\<lambda>i val.
                 let p = getPerm X i n;
                     tmp = fold (\<lambda>m tmp. if m \<noteq> n
                                           then tmp * entry (factors u ! m) (subscript X p m) j
                                           else tmp)
                                [0..<ndims_k u] (value X p * w)
                 in val + tmp)
              [i_begin..<i_end] 0)"

definition mttkrp_row_team ::
  "'a Sptensor_row_scheme \<Rightarrow> Ktensor \<Rightarrow> nat \<Rightarrow> ttb_indx \<Rightarrow> FacMatrix \<Rightarrow> FacMatrix \<times> access list" where
  "mttkrp_row_team X u n row v =
     (let Nrow = siz X ! n
      in if row \<ge> Nrow then (v, [])
         else (let i_begin = getPermRowBegin X row n;
                   i_end = getPermRowBegin X (row + 1) n
               in if i_end = i_begin then (v, [])
                  else (let k = subscript X (getPerm X i_begin n) n
                        in fold (\<lambda>j (v, log).
                                   (plain_add v k j (mttkrp_row_val X u n i_begin i_end j),
                                    log @ [(k, False)]))
                                [0..<ncomponents u] (v, []))))"

text \<open>
  \<open>Genten::mttkrp(X,u,n,v)\<close> for \<open>SptensorT_row\<close> on a host execution space: a league of
  \<open>(Nrow+TeamSize-1)/TeamSize\<close> teams, the team of rank \<open>league\<close> taking the row
  \<open>league_index*team_size+team_index\<close>.
\<close>

definition mttkrp_row ::
  "'a Sptensor_row_scheme \<Rightarrow> Ktensor \<Rightarrow> nat \<Rightarrow> FacMatrix \<Rightarrow> error + FacMatrix" where
  "mttkrp_row X u n v =
     (case mttkrp_asserts X u n v of
        Some e \<Rightarrow> Inl e
      | None \<Rightarrow>
          (let TeamSize = 1; Nrow = siz X ! n;
               LeagueSize = (Nrow + TeamSize - 1) div TeamSize
           in parallel_for_teams (league_ranks LeagueSize)
                (\<lambda>league v. mttkrp_row_team X u n (league * TeamSize + 0) v)
                (assign_scalar v 0) ''Genten::mttkrp_row_kernel''))"



text \<open>The row that the loop sees at position \<open>i\<close>, and whether it flushes the accumulator.\<close>

definition perm_row_at :: "'a Sptensor_perm_scheme \<Rightarrow> nat \<Rightarrow> nat \<Rightarrow> nat" where
  "perm_row_at X n i = (if i \<ge> nnz X then invalid_row else subscript X (getPerm X i n) n)"

definition perm_flush :: "'a Sptensor_perm_scheme \<Rightarrow> nat \<Rightarrow> nat \<Rightarrow> perm_state \<Rightarrow> bool" where
  "perm_flush X n i st \<longleftrightarrow> perm_row_at X n i \<noteq> ps_row_prev st \<and> ps_row_prev st \<noteq> invalid_row"







section \<open>The CP-ALS driver\<close>

text \<open>
  \<open>cpals_core\<close> calls methods of \<open>FacMatrix\<close>, \<open>Ktensor\<close> and \<open>SystemTimer\<close> that are defined
  outside these sources.  The dense linear algebra and the wall clock are a parameter of the
  model, a record with one field per method; every statement below about \<open>cpals_core\<close> holds
  for every such record.  \<open>fm_solveTransposeRHS\<close> and \<open>fm_colScale\<close> may throw.
  \<open>timer_getTotalTime D k\<close> is the elapsed time read in outer iteration \<open>k\<close>.
\<close>

datatype NormType = NormOne | NormTwo | NormInf

record dense_layer =
  fm_gramian :: "FacMatrix \<Rightarrow> FacMatrix"
  fm_times :: "FacMatrix \<Rightarrow> FacMatrix \<Rightarrow> FacMatrix"
  fm_solveTransposeRHS :: "FacMatrix \<Rightarrow> FacMatrix \<Rightarrow> error + FacMatrix"
  fm_colNorms :: "FacMatrix \<Rightarrow> NormType \<Rightarrow> ttb_real \<Rightarrow> ttb_real list"
  fm_colScale :: "FacMatrix \<Rightarrow> ttb_real list \<Rightarrow> bool \<Rightarrow> error + FacMatrix"
  fm_oprod :: "ttb_real list \<Rightarrow> FacMatrix"
  fm_sum :: "FacMatrix \<Rightarrow> ttb_real"
  kt_normFsq :: "Ktensor \<Rightarrow> ttb_real"
  kt_normalize :: "Ktensor \<Rightarrow> NormType \<Rightarrow> Ktensor"
  kt_arrange :: "Ktensor \<Rightarrow> Ktensor"
  timer_getTotalTime :: "nat \<Rightarrow> ttb_real"
  timer_mttkrp_gflops :: ttb_real

record CpAlsPerfInfo =
  nIter :: int
  dResNorm :: ttb_real
  dFit :: ttb_real
  dCumTime :: ttb_real
  dmttkrp_gflops :: ttb_real

text \<open>
  Modelled from the spec: \<open>Ktensor::distribute(i)\<close>, which is not part of these sources.  It
  makes the K-tensor distributed (all weights one) by moving the weights into factor \<open>i\<close>:
  column \<open>j\<close> of that factor is multiplied by \<open>\<lambda>[j]\<close>.
\<close>

definition distribute :: "Ktensor \<Rightarrow> nat \<Rightarrow> Ktensor" where
  "distribute u i =
     u\<lparr>factors := (factors u)[i := (factors u ! i)
                       \<lparr>data := map (\<lambda>row. map (\<lambda>j. row ! j * weights u ! j) [0..<nCols (factors u ! i)])
                                    (data (factors u ! i))\<rparr>],
       weights := replicate (ncomponents u) 1\<rparr>"

text \<open>Modelled from the spec: \<open>Sptensor::norm()\<close>, the Frobenius norm of the tensor.\<close>

definition norm_x :: "'a Sptensor_scheme \<Rightarrow> ttb_real" where
  "norm_x x = sqrt (\<Sum>v\<leftarrow>vals x. v * v)"

text \<open>\<open>lambda.times(u.weights())\<close>, the elementwise product of two arrays.\<close>

definition array_times :: "ttb_real list \<Rightarrow> ttb_real list \<Rightarrow> ttb_real list" where
  "array_times a b = map (\<lambda>j. a ! j * b ! j) [0..<length a]"

definition set_factor :: "Ktensor \<Rightarrow> nat \<Rightarrow> FacMatrix \<Rightarrow> Ktensor" where
  "set_factor u n M = u\<lparr>factors := (factors u)[n := M]\<rparr>"

text \<open>The variables of \<open>cpals_core\<close> that live across the iterations.\<close>

record cpals_state =
  cs_u :: Ktensor
  cs_lambda :: "ttb_real list"
  cs_gamma :: "FacMatrix list"
  cs_upsilon :: FacMatrix
  cs_fit :: ttb_real
  cs_resNorm :: ttb_real
  cs_perfInfo :: "CpAlsPerfInfo list option"
  cs_nNextPerf :: nat

text \<open>What \<open>cpals_core\<close> hands back: the K-tensor and the output parameters.\<close>

record cpals_result =
  r_u :: Ktensor
  r_numIters :: ttb_indx
  r_resNorm :: ttb_real
  r_perfInfo :: "CpAlsPerfInfo list option"

text \<open>A loop whose body may throw.\<close>

fun fold_err :: "('a \<Rightarrow> 's \<Rightarrow> error + 's) \<Rightarrow> 'a list \<Rightarrow> 's \<Rightarrow> error + 's" where
  "fold_err f [] st = Inr st"
| "fold_err f (n # ns) st = (case f n st of Inl e \<Rightarrow> Inl e | Inr st' \<Rightarrow> fold_err f ns st')"

text \<open>
  The argument checks that open \<open>cpals_core\<close>, and the check on \<open>perfInfo\<close> that follows the
  start of the timer.  \<open>None\<close> stands for a null \<open>perfInfo\<close>.
\<close>

definition cpals_checks ::
  "'a Sptensor_scheme \<Rightarrow> Ktensor \<Rightarrow> ttb_indx \<Rightarrow> CpAlsPerfInfo list option \<Rightarrow> error option" where
  "cpals_checks x u perfIter perfInfo =
     (if isConsistent u = False
        then Some (GentenError ''Genten::cpals_core - ktensor u is not consistent'')
      else if ndims x \<noteq> ndims_k u
        then Some (GentenError ''Genten::cpals_core - u and x have different num dims'')
      else if \<not> list_all (\<lambda>i. siz x ! i = nRows (factors u ! i)) [0..<ndims x]
        then Some (GentenError ''Genten::cpals_core - u and x have different size'')
      else if perfIter > 0 \<and> perfInfo = None
        then Some (GentenError ''Genten::cpals_core - perfInfo requested but needs to be allocated'')
      else None)"

text \<open>
  From the initialisation of \<open>perfInfo\<close> to the start of the main loop: the initial guess is
  distributed, \<open>lambda\<close> is set to ones, the Gramians of all factors but the first are formed,
  and, when \<open>perfInfo\<close> is not null, the fit of the initial guess is recorded.
\<close>

definition cpals_init ::
  "dense_layer \<Rightarrow> real \<Rightarrow> 'a Sptensor_scheme \<Rightarrow> Ktensor \<Rightarrow> ttb_indx \<Rightarrow> ttb_real \<Rightarrow> ttb_indx \<Rightarrow>
   CpAlsPerfInfo list option \<Rightarrow> error + cpals_state" where
  "cpals_init D eps x u maxIters resNorm perfIter perfInfo =
     (let perfInfo1 =
            (if perfIter > 0
             then map_option (\<lambda>p. fold (\<lambda>i p. p[i := \<lparr>nIter = -1, dResNorm = -1, dFit = -1,
                                                         dCumTime = -1, dmttkrp_gflops = -1\<rparr>])
                                         [0..<2 + maxIters div perfIter] p) perfInfo
             else perfInfo);
          nc = ncomponents u;
          nd = ndims x;
          u1 = distribute u 0;
          lambda = replicate nc 1;
          gamma0 = map (\<lambda>n. \<lparr>nRows = nCols (factors u1 ! n), nCols = nCols (factors u1 ! n),
                                data = replicate (nCols (factors u1 ! n))
                                         (replicate (nCols (factors u1 ! n)) 0)\<rparr>) [0..<nd];
          gamma = fold (\<lambda>n g. g[n := fm_gramian D (factors u1 ! n)]) [1..<nd] gamma0;
          upsilon = \<lparr>nRows = nc, nCols = nc, data = replicate nc (replicate nc 0)\<rparr>;
          xNorm = norm_x x;
          st = \<lparr>cs_u = u1, cs_lambda = lambda, cs_gamma = gamma, cs_upsilon = upsilon,
                cs_fit = 0, cs_resNorm = resNorm, cs_perfInfo = perfInfo1, cs_nNextPerf = 0\<rparr>
      in case perfInfo1 of
           None \<Rightarrow> Inr st
         | Some p \<Rightarrow>
             (let dUnorm = kt_normFsq D u1
              in case innerprod x u1 lambda of
                   Inl e \<Rightarrow> Inl e
                 | Inr dXtU \<Rightarrow>
                     (case computeResNorm eps xNorm dUnorm dXtU of
                        Inl e \<Rightarrow> Inl e
                      | Inr r \<Rightarrow>
                          (let fit0 = 1 - r / xNorm;
                               fit = (if fit0 < 0 then 0 else fit0)
                           in Inr (st\<lparr>cs_fit := fit,
                                      cs_perfInfo := Some (p[0 := \<lparr>nIter = 0, dResNorm = r, dFit = fit,
                                                              dCumTime = timer_getTotalTime D 0,
                                                              dmttkrp_gflops = dmttkrp_gflops (p ! 0)\<rparr>]),
                                      cs_nNextPerf := 1\<rparr>)))))"

text \<open>
  The update of mode \<open>n\<close> in outer iteration \<open>numIters\<close>.  \<open>mttkrp_T\<close> is the \<open>mttkrp\<close> of the
  tensor type the template is instantiated with; \<open>Genten::mttkrp(x,u,n)\<close> writes into \<open>u[n]\<close>.
\<close>

definition cpals_mode ::
  "('a Sptensor_scheme \<Rightarrow> Ktensor \<Rightarrow> nat \<Rightarrow> FacMatrix \<Rightarrow> error + FacMatrix) \<Rightarrow> dense_layer \<Rightarrow>
   'a Sptensor_scheme \<Rightarrow> ttb_indx \<Rightarrow> nat \<Rightarrow> cpals_state \<Rightarrow> error + cpals_state" where
  "cpals_mode mttkrp_T D x numIters n st =
     (case mttkrp_T x (cs_u st) n (factors (cs_u st) ! n) of
        Inl e \<Rightarrow> Inl e
      | Inr v \<Rightarrow>
          (let u1 = set_factor (cs_u st) n v;
               upsilon = fold (\<lambda>idx ups. if idx \<noteq> n then fm_times D ups (cs_gamma st ! idx) else ups)
                              [0..<ndims x] (assign_scalar (cs_upsilon st) 1)
           in case fm_solveTransposeRHS D (factors u1 ! n) upsilon of
                Inl e \<Rightarrow> Inl e
              | Inr un \<Rightarrow>
                  (let lambda = (if numIters = 0 then fm_colNorms D un NormTwo 0
                                 else fm_colNorms D un NormInf 1)
                   in case fm_colScale D un lambda True of
                        Inl e \<Rightarrow> Inl e
                      | Inr un' \<Rightarrow>
                          Inr (st\<lparr>cs_u := set_factor u1 n un', cs_lambda := lambda,
                                  cs_upsilon := upsilon,
                                  cs_gamma := (cs_gamma st)[n := fm_gramian D un']\<rparr>))))"

text \<open>
  The body of the main loop for the iteration index \<open>numIters\<close>.  The result carries the new
  state and whether the check for convergence or for the time limit ends the loop.
\<close>

definition cpals_iter ::
  "('a Sptensor_scheme \<Rightarrow> Ktensor \<Rightarrow> nat \<Rightarrow> FacMatrix \<Rightarrow> error + FacMatrix) \<Rightarrow> dense_layer \<Rightarrow>
   real \<Rightarrow> 'a Sptensor_scheme \<Rightarrow> ttb_real \<Rightarrow> ttb_real \<Rightarrow> ttb_indx \<Rightarrow> ttb_indx \<Rightarrow> cpals_state \<Rightarrow>
   error + (cpals_state \<times> bool)" where
  "cpals_iter mttkrp_T D eps x tol maxSecs perfIter numIters st =
     (let fitold = cs_fit st; nd = ndims x; xNorm = norm_x x
      in case fold_err (cpals_mode mttkrp_T D x numIters) [0..<nd] st of
           Inl e \<Rightarrow> Inl e
         | Inr st1 \<Rightarrow>
             (let upsilon = fm_times D (fm_times D (cs_upsilon st1) (cs_gamma st1 ! (nd - 1)))
                                     (fm_oprod D (cs_lambda st1));
                  pNorm = sqrt \<bar>fm_sum D upsilon\<bar>
              in case innerprod x (cs_u st1) (cs_lambda st1) of
                   Inl e \<Rightarrow> Inl e
                 | Inr xpip \<Rightarrow>
                     (case computeResNorm eps xNorm pNorm xpip of
                        Inl e \<Rightarrow> Inl e
                      | Inr resNorm \<Rightarrow>
                          (let fit = 1 - resNorm / xNorm;
                               fitchange = \<bar>fitold - fit\<bar>;
                               st2 = st1\<lparr>cs_upsilon := upsilon, cs_resNorm := resNorm, cs_fit := fit\<rparr>;
                               st3 = (if perfIter > 0 \<and> (numIters + 1) mod perfIter = 0
                                      then st2\<lparr>cs_perfInfo :=
                                                 map_option (\<lambda>p. p[cs_nNextPerf st2 :=
                                                     \<lparr>nIter = int (numIters + 1), dResNorm = resNorm,
                                                      dFit = fit,
                                                      dCumTime = timer_getTotalTime D numIters,
                                                      dmttkrp_gflops = dmttkrp_gflops (p ! cs_nNextPerf st2)\<rparr>])
                                                   (cs_perfInfo st2),
                                               cs_nNextPerf := cs_nNextPerf st2 + 1\<rparr>
                                      else st2)
                           in Inr (st3, (numIters > 0 \<and> fitchange < tol) \<or>
                                        (maxSecs \<ge> 0 \<and> timer_getTotalTime D numIters > maxSecs))))))"

text \<open>
  \<open>for (numIters = 0; numIters < maxIters; numIters++) { \<dots> if (\<dots>) break; }\<close>: the result is
  the value of \<open>numIters\<close> on leaving the loop, with the state.
\<close>

function cpals_loop ::
  "(ttb_indx \<Rightarrow> cpals_state \<Rightarrow> error + (cpals_state \<times> bool)) \<Rightarrow> ttb_indx \<Rightarrow> ttb_indx \<Rightarrow>
   cpals_state \<Rightarrow> error + (ttb_indx \<times> cpals_state)" where
  "cpals_loop body maxIters numIters st =
     (if numIters < maxIters
      then (case body numIters st of
              Inl e \<Rightarrow> Inl e
            | Inr (st', stop) \<Rightarrow>
                if stop then Inr (numIters, st')
                else cpals_loop body maxIters (numIters + 1) st')
      else Inr (numIters, st))"
  by pat_completeness auto
termination
  by (relation "measure (\<lambda>(body, maxIters, numIters, st). maxIters - numIters)") auto

declare cpals_loop.simps [simp del]

text \<open>
  After the loop: the count is incremented "so the count starts from one", the result is
  normalised, the final weights are stored, the components are arranged, and the last entry
  of \<open>perfInfo\<close> is filled.
\<close>

definition cpals_finish ::
  "dense_layer \<Rightarrow> ttb_indx \<Rightarrow> ttb_indx \<Rightarrow> cpals_state \<Rightarrow> cpals_result" where
  "cpals_finish D perfIter numIters0 st =
     (let numIters = numIters0 + 1;
          u1 = kt_normalize D (cs_u st) NormTwo;
          lambda = array_times (cs_lambda st) (weights u1);
          u2 = kt_arrange D (u1\<lparr>weights := lambda\<rparr>);
          perfInfo = (if perfIter > 0
                      then map_option (\<lambda>p. p[cs_nNextPerf st :=
                              \<lparr>nIter = int numIters, dResNorm = cs_resNorm st, dFit = cs_fit st,
                               dCumTime = timer_getTotalTime D numIters0,
                               dmttkrp_gflops = timer_mttkrp_gflops D\<rparr>]) (cs_perfInfo st)
                      else cs_perfInfo st)
      in \<lparr>r_u = u2, r_numIters = numIters, r_resNorm = cs_resNorm st, r_perfInfo = perfInfo\<rparr>)"

text \<open>
  \<open>cpals_core\<close>.  The parameter \<open>resNorm\<close> is the value the caller's variable holds on entry
  (it is returned untouched when the loop body never runs); printing is left out.
\<close>

definition cpals_core ::
  "('a Sptensor_scheme \<Rightarrow> Ktensor \<Rightarrow> nat \<Rightarrow> FacMatrix \<Rightarrow> error + FacMatrix) \<Rightarrow> dense_layer \<Rightarrow>
   real \<Rightarrow> 'a Sptensor_scheme \<Rightarrow> Ktensor \<Rightarrow> ttb_real \<Rightarrow> ttb_indx \<Rightarrow> ttb_real \<Rightarrow> ttb_real \<Rightarrow>
   ttb_indx \<Rightarrow> CpAlsPerfInfo list option \<Rightarrow> error + cpals_result" where
  "cpals_core mttkrp_T D eps x u tol maxIters maxSecs resNorm perfIter perfInfo =
     (case cpals_checks x u perfIter perfInfo of
        Some e \<Rightarrow> Inl e
      | None \<Rightarrow>
          (case cpals_init D eps x u maxIters resNorm perfIter perfInfo of
             Inl e \<Rightarrow> Inl e
           | Inr st0 \<Rightarrow>
               (case cpals_loop (cpals_iter mttkrp_T D eps x tol maxSecs perfIter) maxIters 0 st0 of
                  Inl e \<Rightarrow> Inl e
                | Inr (numIters, st) \<Rightarrow> Inr (cpals_finish D perfIter numIters st))))"

text \<open>
  For the statements about the loop: the state after the first \<open>k\<close> passes of a body, run one
  after the other with the exit check ignored, and whether the exit check fires in pass \<open>k\<close>.
\<close>

fun cpals_run ::
  "(ttb_indx \<Rightarrow> cpals_state \<Rightarrow> error + (cpals_state \<times> bool)) \<Rightarrow> nat \<Rightarrow> cpals_state \<Rightarrow>
   error + cpals_state" where
  "cpals_run body 0 st = Inr st"
| "cpals_run body (Suc k) st =
     (case cpals_run body k st of
        Inl e \<Rightarrow> Inl e
      | Inr s \<Rightarrow> (case body k s of Inl e \<Rightarrow> Inl e | Inr (s', stop) \<Rightarrow> Inr s'))"

definition breaks_at ::
  "(ttb_indx \<Rightarrow> cpals_state \<Rightarrow> error + (cpals_state \<times> bool)) \<Rightarrow> cpals_state \<Rightarrow> nat \<Rightarrow> bool" where
  "breaks_at body st0 k \<longleftrightarrow>
     (case cpals_run body k st0 of
        Inl e \<Rightarrow> False
      | Inr s \<Rightarrow> (case body k s of Inl e \<Rightarrow> False | Inr (s', stop) \<Rightarrow> stop))"

text \<open>
  A stand-in for the dense layer, for running \<open>cpals_core\<close> on concrete inputs: the solve and
  the scaling leave the factor alone, every norm is one, the clock stands still.
\<close>

definition plain_layer :: dense_layer where
  "plain_layer =
     \<lparr>fm_gramian = (\<lambda>M. M), fm_times = (\<lambda>A B. A), fm_solveTransposeRHS = (\<lambda>M U. Inr M),
      fm_colNorms = (\<lambda>M t m. replicate (nCols M) 1), fm_colScale = (\<lambda>M l inv. Inr M),
      fm_oprod = (\<lambda>l. \<lparr>nRows = length l, nCols = length l,
                         data = replicate (length l) (replicate (length l) 1)\<rparr>),
      fm_sum = (\<lambda>M. 1), kt_normFsq = (\<lambda>u. 1), kt_normalize = (\<lambda>u t. u), kt_arrange = (\<lambda>u. u),
      timer_getTotalTime = (\<lambda>k. 0), timer_mttkrp_gflops = 0\<rparr>"

text \<open>The \<open>1\<close>-mode tensor with the single nonzero \<open>(0) = 1\<close> and a rank-1 initial guess.\<close>

definition tiny_x :: Sptensor where
  "tiny_x = \<lparr>siz = [1], subs = [[0]], vals = [1]\<rparr>"

definition tiny_u :: "real \<Rightarrow> Ktensor" where
  "tiny_u w = \<lparr>weights = [w], factors = [\<lparr>nRows = 1, nCols = 1, data = [[1]]\<rparr>]\<rparr>"

text \<open>
  The states this run goes through: the initial guess distributed, and the state that every
  pass of the loop body leaves behind.
\<close>

definition tiny_st0 :: cpals_state where
  "tiny_st0 =
     \<lparr>cs_u = \<lparr>weights = [1], factors = [\<lparr>nRows = 1, nCols = 1, data = [[3]]\<rparr>]\<rparr>,
      cs_lambda = [1], cs_gamma = [\<lparr>nRows = 1, nCols = 1, data = [[0]]\<rparr>],
      cs_upsilon = \<lparr>nRows = 1, nCols = 1, data = [[0]]\<rparr>, cs_fit = 0, cs_resNorm = 0,
      cs_perfInfo = None, cs_nNextPerf = 0\<rparr>"

definition tiny_st1 :: cpals_state where
  "tiny_st1 =
     \<lparr>cs_u = \<lparr>weights = [1], factors = [\<lparr>nRows = 1, nCols = 1, data = [[1]]\<rparr>]\<rparr>,
      cs_lambda = [1], cs_gamma = [\<lparr>nRows = 1, nCols = 1, data = [[1]]\<rparr>],
      cs_upsilon = \<lparr>nRows = 1, nCols = 1, data = [[1]]\<rparr>, cs_fit = 1, cs_resNorm = 0,
      cs_perfInfo = None, cs_nNextPerf = 0\<rparr>"

definition tiny_out :: cpals_result where
  "tiny_out =
     \<lparr>r_u = \<lparr>weights = [1], factors = [\<lparr>nRows = 1, nCols = 1, data = [[1]]\<rparr>]\<rparr>,
      r_numIters = 2, r_resNorm = 0, r_perfInfo = None\<rparr>"

abbreviation tiny_body :: "ttb_real \<Rightarrow> ttb_indx \<Rightarrow> cpals_state \<Rightarrow> error + (cpals_state \<times> bool)" where
  "tiny_body tol \<equiv> cpals_iter mttkrp plain_layer (1/4) tiny_x tol (-1) 0"




section \<open>A tensor beyond the 32-bit range\<close>




definition unit_U :: Ktensor where
  "unit_U = \<lparr>weights = [1], factors = [\<lparr>nRows = 1, nCols = 1, data = [[1]]\<rparr>]\<rparr>"


section \<open>Inputs that the permuted and the row-indexed kernel cannot take\<close>

text \<open>
  A tensor of one mode of size 3 with 129 nonzeros whose permutation, the identity, is not
  sorted: the rows by position are 0, 1, then 126 times 2, and 1 again at the position 128,
  the first of the second row block.  And the tensor of Scenario A with a row pointer for
  mode 0 that cuts the two positions of row 0 apart.
\<close>

definition unsorted_X :: Sptensor_perm where
  "unsorted_X = \<lparr>siz = [3], subs = [0] # [1] # replicate 126 [2] @ [[1]], vals = replicate 129 1,
                 perm = map (\<lambda>i. [i]) [0..<129]\<rparr>"

definition mat31 :: "real \<Rightarrow> real \<Rightarrow> real \<Rightarrow> FacMatrix" where
  "mat31 a b c = \<lparr>nRows = 3, nCols = 1, data = [[a], [b], [c]]\<rparr>"

definition scenarioA_badptr :: Sptensor_row where
  "scenarioA_badptr = scenarioA_row\<lparr>rowptr := [[0, 1, 3], [0, 2, 3], [0, 1, 3]]\<rparr>"

section \<open>Leagues and block starts within the 32-bit range\<close>





section \<open>Correctness of the coordinate-format MTTKRP\<close>

lemma atomic_add_shape [simp]:
  "nRows (atomic_add v k j t) = nRows v"
  "nCols (atomic_add v k j t) = nCols v"
  by (simp_all add: atomic_add_def)

lemma FacMatrix_ok_atomic_add [simp]:
  "FacMatrix_ok v \<Longrightarrow> FacMatrix_ok (atomic_add v k j t)"
  unfolding FacMatrix_ok_def atomic_add_def list_all_length
  by (cases "k < length (data v)") (auto simp: nth_list_update)


lemma assign_scalar_shape [simp]:
  "nRows (assign_scalar v x) = nRows v"
  "nCols (assign_scalar v x) = nCols v"
  by (simp_all add: assign_scalar_def)

lemma FacMatrix_ok_assign_scalar [simp]:
  "FacMatrix_ok v \<Longrightarrow> FacMatrix_ok (assign_scalar v x)"
  by (auto simp: FacMatrix_ok_def assign_scalar_def list_all_length)



















lemmas scenarioA_eval =
  mttkrp_def mttkrp_asserts_def scenarioA_X_def scenarioA_U_def scenarioA_U_ones_def mat21_def
  ndims_def ndims_k_def isConsistent_def ncomponents_def assign_scalar_def mttkrp_kernel_def nnz_def
  fac_blocks.simps MTTKRP_KernelBlock_run_def mttkrp_tmp_def atomic_add_def subscript_def value_def
  entry_def upt_rec Let_def league_ranks_def to_int_def

text \<open>
  Claim C7, as the code computes it.  For the tensor of Scenario A and the K-tensor whose
  factors are the \<open>2\<times>1\<close> identity \<open>[[1],[0]]\<close> with weight 1, MTTKRP yields \<open>V = [[1],[0]]\<close> for
  the target mode 0 and \<open>V = [[1],[0]]\<close> for the target mode 2, whatever \<open>V\<close> held before.
  With factors of ones in place of the identity it yields \<open>[[4],[2]]\<close> and \<open>[[1],[5]]\<close>.
\<close>

theorem scenarioA_mttkrp:
  "mttkrp scenarioA_X scenarioA_U 0 (mat21 a b) = Inr (mat21 1 0) \<and>
   mttkrp scenarioA_X scenarioA_U 2 (mat21 a b) = Inr (mat21 1 0) \<and>
   mttkrp scenarioA_X scenarioA_U_ones 0 (mat21 a b) = Inr (mat21 4 2) \<and>
   mttkrp scenarioA_X scenarioA_U_ones 2 (mat21 a b) = Inr (mat21 1 5)"
  by (simp add: scenarioA_eval)

text \<open>
  The values the spec states for Scenario A, \<open>[[1],[2]]\<close> for mode 0 and \<open>[[1],[5]]\<close> for
  mode 2, are not what the kernel returns, under either reading of the factor matrices.
\<close>

theorem scenarioA_mttkrp_counterexample:
  "\<not> (mttkrp scenarioA_X scenarioA_U 0 (mat21 0 0) = Inr (mat21 1 2) \<and>
      mttkrp scenarioA_X scenarioA_U 2 (mat21 0 0) = Inr (mat21 1 5)) \<and>
   \<not> (mttkrp scenarioA_X scenarioA_U_ones 0 (mat21 0 0) = Inr (mat21 1 2) \<and>
      mttkrp scenarioA_X scenarioA_U_ones 2 (mat21 0 0) = Inr (mat21 1 5))"
  by (simp add: scenarioA_eval)

section \<open>Correctness of the inner product\<close>


















section \<open>The residual norm\<close>

lemma DBL_MIN_pos: "0 < DBL_MIN"
  by (simp add: DBL_MIN_def)

text \<open>
  Claim C5, as the code has it.  With \<open>residual\<^sup>2 = \<parallel>X\<parallel>\<^sup>2 + \<parallel>model\<parallel>\<^sup>2 - 2\<cdot>\<langle>X,model\<rangle>\<close>: if
  \<open>residual\<^sup>2 > DBL_MIN\<close> the result is its square root; else if
  \<open>residual\<^sup>2 > -\<langle>X,model\<rangle>\<cdot>\<surd>\<epsilon>\<cdot>10\<^sup>3\<close> the result is 0; else the computation fails with the
  negative-residual error and produces no result.  So the code agrees with the rule of the
  spec whenever \<open>residual\<^sup>2\<close> is not in the interval \<open>(0, DBL_MIN]\<close>.
\<close>

theorem computeResNorm_branches:
  "(DBL_MIN < residual_sq xNorm mNorm xDotm \<longrightarrow>
      computeResNorm eps xNorm mNorm xDotm = Inr (sqrt (residual_sq xNorm mNorm xDotm))) \<and>
   (residual_sq xNorm mNorm xDotm \<le> DBL_MIN \<and>
    - (xDotm * sqrt eps * 10 ^ 3) < residual_sq xNorm mNorm xDotm \<longrightarrow>
      computeResNorm eps xNorm mNorm xDotm = Inr 0) \<and>
   (residual_sq xNorm mNorm xDotm \<le> DBL_MIN \<and>
    residual_sq xNorm mNorm xDotm \<le> - (xDotm * sqrt eps * 10 ^ 3) \<longrightarrow>
      computeResNorm eps xNorm mNorm xDotm
        = Inl (GentenError ''Genten::cpals_core - residual norm is negative'')) \<and>
   (residual_sq xNorm mNorm xDotm \<le> 0 \<or> DBL_MIN < residual_sq xNorm mNorm xDotm \<longrightarrow>
      computeResNorm eps xNorm mNorm xDotm = resnorm_spec eps xNorm mNorm xDotm)"
  using DBL_MIN_pos
  by (auto simp: computeResNorm_def resnorm_spec_def residual_sq_def Let_def power2_eq_square)

theorem computeResNorm_branches_witness:
  "(DBL_MIN < residual_sq 2 0 0 \<and> computeResNorm (1 / 2 ^ 52) 2 0 0 = Inr 2) \<and>
   (residual_sq 1 1 1 \<le> DBL_MIN \<and> - (1 * sqrt (1 / 2 ^ 52) * 10 ^ 3) < residual_sq 1 1 1 \<and>
      computeResNorm (1 / 2 ^ 52) 1 1 1 = Inr 0) \<and>
   (residual_sq 0 0 0 \<le> DBL_MIN \<and> residual_sq 0 0 0 \<le> - (0 * sqrt (1 / 2 ^ 52) * 10 ^ 3) \<and>
      computeResNorm (1 / 2 ^ 52) 0 0 0
        = Inl (GentenError ''Genten::cpals_core - residual norm is negative'')) \<and>
   ((residual_sq 2 0 0 \<le> 0 \<or> DBL_MIN < residual_sq 2 0 0) \<and>
      computeResNorm (1 / 2 ^ 52) 2 0 0 = resnorm_spec (1 / 2 ^ 52) 2 0 0)"
proof -
  have a: "DBL_MIN < residual_sq 2 0 0"
    by (simp add: residual_sq_def DBL_MIN_def)
  have b: "residual_sq 1 1 1 \<le> DBL_MIN" "- (1 * sqrt (1 / 2 ^ 52) * 10 ^ 3) < residual_sq 1 1 1"
    by (simp_all add: residual_sq_def DBL_MIN_def)
  have c: "residual_sq 0 0 0 \<le> DBL_MIN" "residual_sq 0 0 0 \<le> - (0 * sqrt (1 / 2 ^ 52) * 10 ^ 3)"
    by (simp_all add: residual_sq_def DBL_MIN_def)
  have s: "sqrt (residual_sq 2 0 0) = 2"
    by (simp add: residual_sq_def)
  note T1 = computeResNorm_branches[of 2 0 0 "1 / 2 ^ 52"]
  note T2 = computeResNorm_branches[of 1 1 1 "1 / 2 ^ 52"]
  note T3 = computeResNorm_branches[of 0 0 0 "1 / 2 ^ 52"]
  have w1: "computeResNorm (1 / 2 ^ 52) 2 0 0 = Inr 2"
    using T1 a s by simp
  have w2: "computeResNorm (1 / 2 ^ 52) 1 1 1 = Inr 0"
    using T2 b by blast
  have w3: "computeResNorm (1 / 2 ^ 52) 0 0 0
        = Inl (GentenError ''Genten::cpals_core - residual norm is negative'')"
    using T3 c by blast
  have w4: "computeResNorm (1 / 2 ^ 52) 2 0 0 = resnorm_spec (1 / 2 ^ 52) 2 0 0"
    using T1 a by blast
  show ?thesis
    using a b c w1 w2 w3 w4 by blast
qed

text \<open>
  The rule as the spec words it fails for a residual in \<open>(0, DBL_MIN]\<close>: with
  \<open>\<parallel>X\<parallel> = 2\<^sup>-\<^sup>5\<^sup>1\<^sup>1\<close> and a zero model, \<open>residual\<^sup>2 = 2\<^sup>-\<^sup>1\<^sup>0\<^sup>2\<^sup>2 > 0\<close>, yet the result is 0 and not
  the square root \<open>2\<^sup>-\<^sup>5\<^sup>1\<^sup>1\<close>.
\<close>

theorem computeResNorm_counterexample:
  "0 < residual_sq (1 / 2 ^ 511) 0 0 \<and>
   computeResNorm (1 / 2 ^ 52) (1 / 2 ^ 511) 0 0 = Inr 0 \<and>
   resnorm_spec (1 / 2 ^ 52) (1 / 2 ^ 511) 0 0 = Inr (1 / 2 ^ 511) \<and>
   computeResNorm (1 / 2 ^ 52) (1 / 2 ^ 511) 0 0 \<noteq> resnorm_spec (1 / 2 ^ 52) (1 / 2 ^ 511) 0 0"
proof -
  have e: "(1 / 2 ^ 511 :: real) * (1 / 2 ^ 511) = 1 / 2 ^ 1022"
    by (simp flip: power_add)
  have dd: "(1 / 2 ^ 511 :: real) * (1 / 2 ^ 511) + 0 * 0 - 2 * 0 = DBL_MIN"
    unfolding e DBL_MIN_def by simp
  have r: "residual_sq (1 / 2 ^ 511) 0 0 = DBL_MIN"
    using dd by (simp add: residual_sq_def power2_eq_square)
  have c: "computeResNorm (1 / 2 ^ 52) (1 / 2 ^ 511) 0 0 = Inr 0"
    unfolding computeResNorm_def Let_def dd using DBL_MIN_pos by simp
  have sq: "sqrt DBL_MIN = 1 / 2 ^ 511"
    by (rule real_sqrt_unique) (use r in \<open>simp_all add: residual_sq_def\<close>)
  have sp: "resnorm_spec (1 / 2 ^ 52) (1 / 2 ^ 511) 0 0 = Inr (1 / 2 ^ 511)"
    unfolding resnorm_spec_def r sq using DBL_MIN_pos by simp
  have nz: "(1 / 2 ^ 511 :: real) \<noteq> 0"
    by simp
  show ?thesis
    unfolding c sp r using DBL_MIN_pos nz by simp
qed

section \<open>Correctness of the row pointers\<close>

lemma fill_rowptr_nth:
  "length (fill_rowptr rp lo hi x) = length rp \<and>
   (\<forall>k<length rp. fill_rowptr rp lo hi x ! k = (if lo \<le> k \<and> k \<le> hi then x else rp ! k))"
proof -
  have H: "length (fold (\<lambda>k rp. rp[k := x]) [lo..<m] rp) = length rp \<and>
   (\<forall>k<length rp. fold (\<lambda>k rp. rp[k := x]) [lo..<m] rp ! k = (if lo \<le> k \<and> k < m then x else rp ! k))" for m
    by (induction m) (auto simp: nth_list_update less_Suc_eq)
  from H[of "Suc hi"] show ?thesis unfolding fill_rowptr_def less_Suc_eq_le .
qed

text \<open>A loop body in region form: iteration \<open>i\<close> writes \<open>i\<close> to the positions \<open>lo i, \<dots>, hi i\<close>.\<close>

lemma fold_regions:
  assumes body: "\<And>i rp. i \<in> set order \<Longrightarrow> length (body i rp) = length rp \<and>
             (\<forall>k<length rp. body i rp ! k = (if lo i \<le> k \<and> k \<le> hi i then (i::nat) else rp ! k))"
  shows "length (fold body order rp) = length rp \<and>
         (\<forall>k<length rp. \<forall>x. (\<forall>i\<in>set order. lo i \<le> k \<and> k \<le> hi i \<longrightarrow> i = x) \<longrightarrow>
             fold body order rp ! k = (if \<exists>i\<in>set order. lo i \<le> k \<and> k \<le> hi i then x else rp ! k))"
  using body
proof (induction order arbitrary: rp)
  case Nil
  then show ?case by simp
next
  case (Cons i order)
  have b: "length (body i rp) = length rp"
    "\<And>k. k < length rp \<Longrightarrow> body i rp ! k = (if lo i \<le> k \<and> k \<le> hi i then i else rp ! k)"
    using Cons.prems[of i rp] by simp_all
  have IH: "length (fold body order (body i rp)) = length (body i rp)"
    "\<And>k x. k < length (body i rp) \<Longrightarrow> (\<forall>i\<in>set order. lo i \<le> k \<and> k \<le> hi i \<longrightarrow> i = x) \<Longrightarrow>
        fold body order (body i rp) ! k
        = (if \<exists>i\<in>set order. lo i \<le> k \<and> k \<le> hi i then x else body i rp ! k)"
    using Cons.IH[of "body i rp"] Cons.prems by simp_all
  show ?case
  proof (intro conjI allI impI)
    show "length (fold body (i # order) rp) = length rp" using IH(1) b(1) by simp
  next
    fix k x assume k: "k < length rp" and u: "\<forall>i'\<in>set (i # order). lo i' \<le> k \<and> k \<le> hi i' \<longrightarrow> i' = x"
    have "fold body (i # order) rp ! k
        = (if \<exists>i\<in>set order. lo i \<le> k \<and> k \<le> hi i then x else body i rp ! k)"
      using IH(2)[of k x] k b(1) u by simp
    then show "fold body (i # order) rp ! k
        = (if \<exists>i'\<in>set (i # order). lo i' \<le> k \<and> k \<le> hi i' then x else rp ! k)"
      using b(2)[OF k] u by auto
  qed
qed


lemma cut_unique:
  assumes "cut f sz k i" "cut f sz k i'"
  shows "i = i'"
proof (rule ccontr)
  assume "i \<noteq> i'"
  then consider "i < i'" | "i' < i" by linarith
  then show False
  proof cases
    case 1
    then have "f i < k" "k \<le> f i" using assms unfolding cut_def by auto
    then show False by simp
  next
    case 2
    then have "f i' < k" "k \<le> f i'" using assms unfolding cut_def by auto
    then show False by simp
  qed
qed

lemma cut_exists:
  assumes mono: "\<forall>i j. i \<le> j \<and> j < sz \<longrightarrow> f i \<le> f j"
  shows "\<exists>i. cut f sz k i"
proof -
  define P where "P i \<longleftrightarrow> sz \<le> i \<or> k \<le> f i" for i
  define i0 where "i0 = (LEAST i. P i)"
  have "P sz" by (simp add: P_def)
  then have P0: "P i0" and le: "i0 \<le> sz" and least: "\<And>j. j < i0 \<Longrightarrow> \<not> P j"
    unfolding i0_def by (auto intro: LeastI Least_le dest: not_less_Least)
  have "cut f sz k i0"
    unfolding cut_def
  proof (intro conjI allI impI)
    show "i0 \<le> sz" by (rule le)
  next
    fix j assume "j < i0"
    then show "f j < k" using least[of j] by (simp add: P_def)
  next
    fix j assume j: "i0 \<le> j \<and> j < sz"
    then have "k \<le> f i0" using P0 by (simp add: P_def)
    also have "f i0 \<le> f j" using mono j by blast
    finally show "k \<le> f j" .
  qed
  then show ?thesis ..
qed

lemma region_cut:
  assumes mono: "\<forall>i j. i \<le> j \<and> j < sz \<longrightarrow> f i \<le> f j"
    and "1 \<le> sz" "i \<le> sz" "region_lo f i \<le> k" "k \<le> region_hi f sz S i"
  shows "cut f sz k i"
  unfolding cut_def
proof (intro conjI allI impI)
  show "i \<le> sz" by fact
next
  fix j assume j: "j < i"
  then have "f j \<le> f (i - 1)" using mono assms(3) by (intro mono[rule_format]) auto
  also have "f (i - 1) < k" using assms(4) j by (auto simp: region_lo_def split: if_splits)
  finally show "f j < k" .
next
  fix j assume j: "i \<le> j \<and> j < sz"
  then have "i \<noteq> sz" by auto
  then have "k \<le> f i" using assms(5) by (auto simp: region_hi_def split: if_splits)
  also have "f i \<le> f j" using mono j by blast
  finally show "k \<le> f j" .
qed

lemma cut_region:
  assumes "cut f sz k i" "1 \<le> sz" "k \<le> S"
  shows "region_lo f i \<le> k \<and> k \<le> region_hi f sz S i"
proof
  show "region_lo f i \<le> k"
    using assms(1) unfolding cut_def region_lo_def
    by (cases "i = 0") (auto simp: Suc_le_eq dest!: spec[of _ "i - 1"])
next
  show "k \<le> region_hi f sz S i"
    using assms unfolding cut_def region_hi_def by auto
qed

lemma rowptr_body_region:
  assumes "length perm_v = sz" "1 \<le> sz" "i \<le> sz"
  shows "length (rowptr_body perm_v subs_v siz_v n i rp) = length rp \<and>
         (\<forall>k<length rp. rowptr_body perm_v subs_v siz_v n i rp ! k
             = (if region_lo (\<lambda>i. subs_v ! (perm_v ! i ! n) ! n) i \<le> k \<and>
                   k \<le> region_hi (\<lambda>i. subs_v ! (perm_v ! i ! n) ! n) sz (siz_v ! n) i
                then i else rp ! k))"
  using assms fill_rowptr_nth
  by (auto simp: rowptr_body_def Let_def region_lo_def region_hi_def)

text \<open>Every entry of the row pointer of a mode is the cut position of its row number.\<close>

lemma rowptr_mode_cut:
  assumes len: "length perm_v = sz" and sz: "1 \<le> sz"
    and sched: "set order = set [0..<sz + 1]"
    and mono: "\<forall>i j. i \<le> j \<and> j < sz \<longrightarrow> subs_v ! (perm_v ! i ! n) ! n \<le> subs_v ! (perm_v ! j ! n) ! n"
    and L: "length rp = siz_v ! n + 1"
  shows "length (fold (rowptr_body perm_v subs_v siz_v n) order rp) = siz_v ! n + 1 \<and>
         (\<forall>k \<le> siz_v ! n.
            cut (\<lambda>i. subs_v ! (perm_v ! i ! n) ! n) sz k
                (fold (rowptr_body perm_v subs_v siz_v n) order rp ! k))"
proof -
  define f where "f = (\<lambda>i. subs_v ! (perm_v ! i ! n) ! n)"
  let ?S = "siz_v ! n"
  let ?res = "fold (rowptr_body perm_v subs_v siz_v n) order rp"
  have mono': "\<forall>i j. i \<le> j \<and> j < sz \<longrightarrow> f i \<le> f j" using mono by (simp add: f_def)
  have mem: "i \<in> set order \<longleftrightarrow> i \<le> sz" for i using sched by auto
  note R = fold_regions[where body = "rowptr_body perm_v subs_v siz_v n" and order = order
      and lo = "region_lo f" and hi = "region_hi f sz ?S" and rp = rp]
  have body: "length (rowptr_body perm_v subs_v siz_v n i rp') = length rp' \<and>
         (\<forall>k<length rp'. rowptr_body perm_v subs_v siz_v n i rp' ! k
             = (if region_lo f i \<le> k \<and> k \<le> region_hi f sz ?S i then i else rp' ! k))"
    if "i \<in> set order" for i rp'
    using rowptr_body_region[OF len sz, where i = i and subs_v = subs_v and n = n
        and siz_v = siz_v and rp = rp'] that mem by (simp add: f_def)
  from R[OF body] have res_len: "length ?res = length rp"
    and res_nth: "\<And>k x. k < length rp \<Longrightarrow>
         (\<forall>i\<in>set order. region_lo f i \<le> k \<and> k \<le> region_hi f sz ?S i \<longrightarrow> i = x) \<Longrightarrow>
         ?res ! k = (if \<exists>i\<in>set order. region_lo f i \<le> k \<and> k \<le> region_hi f sz ?S i then x else rp ! k)"
    by auto
  have "cut f sz k (?res ! k)" if k: "k \<le> ?S" for k
  proof -
    obtain x where x: "cut f sz k x" using cut_exists[OF mono'] by blast
    have uniq: "\<forall>i\<in>set order. region_lo f i \<le> k \<and> k \<le> region_hi f sz ?S i \<longrightarrow> i = x"
      using region_cut[OF mono' sz] cut_unique[OF _ x] mem by blast
    have ex: "\<exists>i\<in>set order. region_lo f i \<le> k \<and> k \<le> region_hi f sz ?S i"
      using cut_region[OF x sz k] x mem by (auto simp: cut_def)
    have "?res ! k = x" using res_nth[OF _ uniq] k L ex by simp
    then show ?thesis using x by simp
  qed
  then show ?thesis using res_len L by (simp add: f_def)
qed


lemma Sptensor_ok_subscript:
  assumes "Sptensor_ok X" "k < nnz X" "d < ndims X"
  shows "subscript X k d < siz X ! d"
proof -
  from assms(1,2) have "list_all2 (\<lambda>s sz. s < sz) (subs X ! k) (siz X)"
    by (simp add: Sptensor_ok_def list_all_length)
  then show ?thesis using assms(3)
    by (simp add: list_all2_conv_all_nth subscript_def ndims_def)
qed

lemma Sptensor_perm_ok_mode:
  assumes "Sptensor_perm_ok X" "d < ndims X"
  shows "Sptensor_ok X" "length (perm X) = nnz X"
    "\<And>i. i < nnz X \<Longrightarrow> getPerm X i d < nnz X"
    "\<And>k. k < nnz X \<Longrightarrow> \<exists>i<nnz X. getPerm X i d = k"
    "\<And>i j. i \<le> j \<Longrightarrow> j < nnz X \<Longrightarrow>
        subscript X (getPerm X i d) d \<le> subscript X (getPerm X j d) d"
proof -
  from assms have ok: "Sptensor_ok X" "length (perm X) = nnz X"
    and st: "set (map (\<lambda>i. getPerm X i d) [0..<nnz X]) = set [0..<nnz X]"
    and so: "sorted (map (\<lambda>i. subscript X (getPerm X i d) d) [0..<nnz X])"
    by (simp_all add: Sptensor_perm_ok_def list_all_length)
  show "Sptensor_ok X" "length (perm X) = nnz X" by fact+
  show "getPerm X i d < nnz X" if "i < nnz X" for i
  proof -
    have "getPerm X i d \<in> set (map (\<lambda>i. getPerm X i d) [0..<nnz X])" using that by simp
    then show ?thesis unfolding st by simp
  qed
  show "\<exists>i<nnz X. getPerm X i d = k" if "k < nnz X" for k
  proof -
    have "k \<in> set (map (\<lambda>i. getPerm X i d) [0..<nnz X])" unfolding st using that by simp
    then show ?thesis by auto
  qed
  show "subscript X (getPerm X i d) d \<le> subscript X (getPerm X j d) d" if "i \<le> j" "j < nnz X" for i j
    using sorted_nth_mono[OF so, of i j] that by simp
qed

lemma createRowPtr_cut:
  assumes ok: "Sptensor_perm_ok X" and nz: "1 \<le> nnz X"
    and sched: "schedule_ok sched (nnz X) (ndims X)" and d: "d < ndims X"
  shows "length (rowptr (createRowPtr sched garbage X)) = ndims X"
    and "length (rowptr (createRowPtr sched garbage X) ! d) = siz X ! d + 1"
    and "\<And>k. k \<le> siz X ! d \<Longrightarrow>
           cut (\<lambda>i. subscript X (getPerm X i d) d) (nnz X) k
               (getPermRowBegin (createRowPtr sched garbage X) k d)"
proof -
  note M = Sptensor_perm_ok_mode[OF ok d]
  have s: "set (sched d) = set [0..<nnz X + 1]"
    using sched d by (simp add: schedule_ok_def list_all_length)
  have mono: "\<forall>i j. i \<le> j \<and> j < nnz X \<longrightarrow>
      subs X ! (perm X ! i ! d) ! d \<le> subs X ! (perm X ! j ! d) ! d"
    using M(5) by (simp add: subscript_def getPerm_def)
  note C = rowptr_mode_cut[OF M(2) nz s mono, where rp = "map (garbage d) [0..<siz X ! d + 1]"
      and siz_v = "siz X"]
  have rp: "rowptr (createRowPtr sched garbage X) ! d
      = fold (rowptr_body (perm X) (subs X) (siz X) d) (sched d) (map (garbage d) [0..<siz X ! d + 1])"
    using d by (simp add: createRowPtr_def createRowPtrImpl_def Let_def ndims_def)
  show "length (rowptr (createRowPtr sched garbage X)) = ndims X"
    by (simp add: createRowPtr_def createRowPtrImpl_def Let_def ndims_def)
  show "length (rowptr (createRowPtr sched garbage X) ! d) = siz X ! d + 1"
    unfolding rp using C by simp
  show "cut (\<lambda>i. subscript X (getPerm X i d) d) (nnz X) k
            (getPermRowBegin (createRowPtr sched garbage X) k d)" if "k \<le> siz X ! d" for k
    unfolding getPermRowBegin_def rp using C that by (simp add: subscript_def getPerm_def)
qed


lemma cut_zero: "cut f sz 0 i \<Longrightarrow> i = 0"
  by (cases i) (auto simp: cut_def)

lemma cut_top:
  assumes "cut f sz S i" "\<forall>j < sz. f j < S"
  shows "i = sz"
proof (rule ccontr)
  assume "i \<noteq> sz"
  then have "i < sz" using assms(1) by (simp add: cut_def)
  then have "S \<le> f i" "f i < S" using assms by (auto simp: cut_def)
  then show False by simp
qed

lemma cut_mono:
  assumes "cut f sz r a" "cut f sz (r + 1) b"
  shows "a \<le> b"
proof (rule ccontr)
  assume "\<not> a \<le> b"
  then have "b < a" by simp
  then have "f b < r" "r + 1 \<le> f b" using assms by (auto simp: cut_def)
  then show False by simp
qed

lemma cut_segment:
  assumes "cut f sz r a" "cut f sz (r + 1) b"
  shows "{i. a \<le> i \<and> i < b} = {i. i < sz \<and> f i = r}"
proof (intro set_eqI iffI; clarsimp)
  fix i assume i: "a \<le> i" "i < b"
  then have "i < sz" using assms(2) by (simp add: cut_def)
  moreover have "r \<le> f i" using assms(1) i \<open>i < sz\<close> by (simp add: cut_def)
  moreover have "f i < r + 1" using assms(2) i by (simp add: cut_def)
  ultimately show "i < sz \<and> f i = r" by simp
next
  fix i assume i: "i < sz" "r = f i"
  have "a \<le> i"
  proof (rule ccontr)
    assume "\<not> a \<le> i"
    then have "f i < r" using assms(1) by (simp add: cut_def)
    then show False using i by simp
  qed
  moreover have "i < b"
  proof (rule ccontr)
    assume "\<not> i < b"
    then have "r + 1 \<le> f i" using assms(2) i by (simp add: cut_def)
    then show False using i by simp
  qed
  ultimately show "a \<le> i \<and> i < b" by simp
qed

lemma createRowPtr_result:
  assumes ok: "Sptensor_perm_ok X" and nz: "1 \<le> nnz X"
    and sched: "schedule_ok sched (nnz X) (ndims X)" and d: "d < ndims X"
    and X': "X' = createRowPtr sched garbage X"
  shows "length (rowptr X') = ndims X \<and>
    length (rowptr X' ! d) = siz X ! d + 1 \<and>
    getPermRowBegin X' 0 d = 0 \<and>
    getPermRowBegin X' (siz X ! d) d = nnz X \<and>
    (\<forall>r < siz X ! d. getPermRowBegin X' r d \<le> getPermRowBegin X' (r + 1) d) \<and>
    (\<forall>r < siz X ! d.
        (\<lambda>i. getPerm X i d) ` {i. getPermRowBegin X' r d \<le> i \<and> i < getPermRowBegin X' (r + 1) d}
        = {k. k < nnz X \<and> subscript X k d = r}) \<and>
    (\<forall>rmin. (\<exists>k<nnz X. subscript X k d = rmin) \<and> (\<forall>k<nnz X. rmin \<le> subscript X k d) \<longrightarrow>
        (\<forall>j \<le> rmin. getPermRowBegin X' j d = 0)) \<and>
    (\<forall>rmax. (\<exists>k<nnz X. subscript X k d = rmax) \<and> (\<forall>k<nnz X. subscript X k d \<le> rmax) \<longrightarrow>
        (\<forall>j. rmax < j \<and> j \<le> siz X ! d \<longrightarrow> getPermRowBegin X' j d = nnz X)) \<and>
    (\<forall>r < siz X ! d. (\<forall>k<nnz X. subscript X k d \<noteq> r) \<longrightarrow>
        getPermRowBegin X' (r + 1) d = getPermRowBegin X' r d)"
proof -
  define f where "f = (\<lambda>i. subscript X (getPerm X i d) d)"
  define rp where "rp = (\<lambda>k. getPermRowBegin X' k d)"
  let ?S = "siz X ! d"
  note M = Sptensor_perm_ok_mode[OF ok d]
  note C = createRowPtr_cut[OF ok nz sched d, where garbage = garbage]
  have cut: "cut f (nnz X) k (rp k)" if "k \<le> ?S" for k
    using C(3)[OF that] by (simp add: f_def rp_def X')
  have bound: "\<forall>j<nnz X. f j < ?S"
    using Sptensor_ok_subscript[OF M(1) M(3) d] by (simp add: f_def)
  have c1: "length (rowptr X') = ndims X" "length (rowptr X' ! d) = ?S + 1"
    using C(1,2) by (simp_all add: X')
  have c3: "rp 0 = 0" using cut_zero[OF cut[of 0]] by simp
  have c4: "rp ?S = nnz X" using cut_top[OF cut[of ?S] bound] by simp
  have c5: "rp r \<le> rp (r + 1)" if "r < ?S" for r
    using cut_mono[OF cut[of r] cut[of "r + 1"]] that by simp
  have seg: "{i. rp r \<le> i \<and> i < rp (r + 1)} = {i. i < nnz X \<and> f i = r}" if "r < ?S" for r
    using cut_segment[OF cut[of r] cut[of "r + 1"]] that by simp
  have c6: "(\<lambda>i. getPerm X i d) ` {i. rp r \<le> i \<and> i < rp (r + 1)} = {k. k < nnz X \<and> subscript X k d = r}"
    if rS: "r < ?S" for r
  proof (intro set_eqI iffI)
    fix k assume "k \<in> (\<lambda>i. getPerm X i d) ` {i. rp r \<le> i \<and> i < rp (r + 1)}"
    then obtain i where "k = getPerm X i d" "i < nnz X" "f i = r"
      unfolding seg[OF rS] by auto
    then show "k \<in> {k. k < nnz X \<and> subscript X k d = r}"
      using M(3)[of i] by (simp add: f_def)
  next
    fix k assume "k \<in> {k. k < nnz X \<and> subscript X k d = r}"
    then have k: "k < nnz X" "subscript X k d = r" by simp_all
    then obtain i where i: "i < nnz X" "getPerm X i d = k" using M(4) by blast
    then have "i \<in> {i. i < nnz X \<and> f i = r}" using k by (simp add: f_def)
    then show "k \<in> (\<lambda>i. getPerm X i d) ` {i. rp r \<le> i \<and> i < rp (r + 1)}"
      unfolding seg[OF rS] using i by blast
  qed
  have c7: "rp j = 0"
    if "\<exists>k<nnz X. subscript X k d = rmin" "\<forall>k<nnz X. rmin \<le> subscript X k d" "j \<le> rmin" for rmin j
  proof -
    have lo: "rmin \<le> f i" if "i < nnz X" for i
      using \<open>\<forall>k<nnz X. rmin \<le> subscript X k d\<close> M(3)[OF that] by (simp add: f_def)
    have "rmin < ?S" using that(1) Sptensor_ok_subscript[OF M(1) _ d] by auto
    then have cj: "cut f (nnz X) j (rp j)" using cut[of j] that(3) by simp
    show ?thesis
    proof (rule ccontr)
      assume "rp j \<noteq> 0"
      then have "f 0 < j" using cj by (simp add: cut_def)
      moreover have "rmin \<le> f 0" using lo[of 0] nz by simp
      ultimately show False using that(3) by simp
    qed
  qed
  have c8: "rp j = nnz X"
    if "\<forall>k<nnz X. subscript X k d \<le> rmax" "rmax < j" "j \<le> ?S" for rmax j
  proof -
    have hi: "f i \<le> rmax" if "i < nnz X" for i
      using \<open>\<forall>k<nnz X. subscript X k d \<le> rmax\<close> M(3)[OF that] by (simp add: f_def)
    have cj: "cut f (nnz X) j (rp j)" using cut[of j] that(3) by simp
    show ?thesis
    proof (rule ccontr)
      assume "rp j \<noteq> nnz X"
      then have lt: "rp j < nnz X" using cj by (simp add: cut_def)
      then have "j \<le> f (rp j)" using cj by (simp add: cut_def)
      then show False using hi[OF lt] that(2) by simp
    qed
  qed
  have c9: "rp (r + 1) = rp r" if "r < ?S" "\<forall>k<nnz X. subscript X k d \<noteq> r" for r
  proof -
    have ne: "f i \<noteq> r" if "i < nnz X" for i
      using \<open>\<forall>k<nnz X. subscript X k d \<noteq> r\<close> M(3)[OF that] by (simp add: f_def)
    have "{i. rp r \<le> i \<and> i < rp (r + 1)} = {}"
      unfolding seg[OF that(1)] using ne by auto
    then have "rp (r + 1) \<le> rp r" by (auto simp: not_less[symmetric])
    then show ?thesis using c5[OF that(1)] by simp
  qed
  show ?thesis
    using c1 c3 c4 c5 c6 c7 c8 c9 unfolding rp_def by (intro conjI) blast+
qed


text \<open>
  Claim C4.  For every sparse tensor with \<open>nnz \<ge> 1\<close> whose permutation \<open>\<pi>\<^sub>d\<close> lists the nonzeros by
  non-decreasing subscript in mode \<open>d\<close>, \<open>createRowPtr\<close> builds for every mode \<open>d\<close> an array
  \<open>rowptr\<^sub>d\<close> of length \<open>size[d]+1\<close> with \<open>rowptr\<^sub>d[0] = 0\<close>, \<open>rowptr\<^sub>d[size[d]] = nnz\<close>, monotone, and
  \<open>{\<pi>\<^sub>d[i] : rowptr\<^sub>d[r] \<le> i < rowptr\<^sub>d[r+1]} = {k : subs[k,d] = r}\<close> for every row \<open>r\<close>; the entries
  up to the smallest present row are 0, the entries after the largest present row are
  \<open>nnz\<close>, and an empty row \<open>r\<close> has \<open>rowptr\<^sub>d[r+1] = rowptr\<^sub>d[r]\<close>.  This holds for every order
  in which the parallel loop runs its iterations and for every initial content of the
  uninitialised array.
\<close>

theorem createRowPtr_correct:
  assumes "Sptensor_perm_ok X" and "1 \<le> nnz X"
    and "schedule_ok sched (nnz X) (ndims X)" and "d < ndims X"
  shows "rowptr_correct X (createRowPtr sched garbage X) d"
  unfolding rowptr_correct_def
  using createRowPtr_result[OF assms refl] .

lemmas scenarioA_row_eval =
  scenarioA_row_def Sptensor_perm_ok_def Sptensor_ok_def nnz_def ndims_def getPerm_def subscript_def
  schedule_ok_def upt_rec

lemma scenarioA_row_ok:
  "Sptensor_perm_ok scenarioA_row"
  "1 \<le> nnz scenarioA_row"
  "schedule_ok (\<lambda>n. [3, 2, 1, 0]) (nnz scenarioA_row) (ndims scenarioA_row)"
  "0 < ndims scenarioA_row"
  by (auto simp: scenarioA_row_eval)

theorem createRowPtr_correct_witness:
  "Sptensor_perm_ok scenarioA_row \<and> 1 \<le> nnz scenarioA_row \<and>
   schedule_ok (\<lambda>n. [3, 2, 1, 0]) (nnz scenarioA_row) (ndims scenarioA_row) \<and>
   0 < ndims scenarioA_row \<and>
   rowptr_correct scenarioA_row (createRowPtr (\<lambda>n. [3, 2, 1, 0]) (\<lambda>n k. 99) scenarioA_row) 0"
  using createRowPtr_correct[OF scenarioA_row_ok, of "\<lambda>n k. 99"] scenarioA_row_ok by simp

lemma scenarioA_rowptr:
  "rowptr (createRowPtr (\<lambda>n. [3, 2, 1, 0]) (\<lambda>n k. 99) scenarioA_row) = [[0, 2, 3], [0, 2, 3], [0, 1, 3]]"
  by (simp add: createRowPtr_def createRowPtrImpl_def rowptr_body_def fill_rowptr_def scenarioA_row_def upt_rec)

section \<open>Leagues of teams and their logs\<close>

lemma plain_add_eq: "plain_add v k j t = atomic_add v k j t"
  by (simp add: plain_add_def atomic_add_def)


lemma teams_fold_logs:
  assumes "\<And>L v. L \<in> set ranks \<Longrightarrow> Q L (snd (team L v))"
  shows "\<exists>ls. snd (fold (\<lambda>league (v, logs). let (v', log) = team league v in (v', logs @ [log]))
                    ranks (v, logs)) = logs @ ls \<and>
              length ls = length ranks \<and> (\<forall>i<length ranks. Q (ranks ! i) (ls ! i))"
  using assms
proof (induction ranks arbitrary: v logs)
  case Nil
  then show ?case by simp
next
  case (Cons x xs)
  let ?F = "\<lambda>league (v, logs). let (v', log) = team league v in (v', logs @ [log])"
  have step: "(case team x v of (v', l1) \<Rightarrow> (v', logs @ [l1]))
      = (fst (team x v), logs @ [snd (team x v)])"
    by (simp add: split_def)
  have Qx: "Q x (snd (team x v))" using Cons.prems by simp
  have "\<exists>ls. snd (fold ?F xs (fst (team x v), logs @ [snd (team x v)])) = (logs @ [snd (team x v)]) @ ls \<and>
              length ls = length xs \<and> (\<forall>i<length xs. Q (xs ! i) (ls ! i))"
    by (rule Cons.IH) (simp add: Cons.prems)
  then obtain ls where ls: "snd (fold ?F xs (fst (team x v), logs @ [snd (team x v)]))
        = (logs @ [snd (team x v)]) @ ls"
      "length ls = length xs" "\<forall>i<length xs. Q (xs ! i) (ls ! i)"
    by blast
  have "snd (fold ?F (x # xs) (v, logs)) = logs @ (snd (team x v) # ls)"
    using ls(1) by (simp add: step)
  moreover have "length (snd (team x v) # ls) = length (x # xs)" using ls(2) by simp
  moreover have "\<forall>i<length (x # xs). Q ((x # xs) ! i) ((snd (team x v) # ls) ! i)"
  proof (intro allI impI)
    fix i assume "i < length (x # xs)"
    then show "Q ((x # xs) ! i) ((snd (team x v) # ls) ! i)"
      using Qx ls(3) by (cases i) simp_all
  qed
  ultimately show ?case by blast
qed







section \<open>The permuted kernel computes the contract\<close>

lemma store_plus_eq: "store_plus v row j nj val = atomic_add_vec v row j nj val"
  by (simp add: store_plus_def atomic_add_vec_def plain_add_eq)



lemma perm_iter_proj:
  "ps_row (perm_iter X u n i_block j nj ii st) = perm_row_at X n (i_block + ii)"
  "ps_row_prev (perm_iter X u n i_block j nj ii st) = perm_row_at X n (i_block + ii)"
  "ps_v (perm_iter X u n i_block j nj ii st)
     = (if perm_flush X n (i_block + ii) st
        then atomic_add_vec (ps_v st) (ps_row_prev st) j nj (ps_val st) else ps_v st)"
  "ps_val (perm_iter X u n i_block j nj ii st)
     = (if perm_row_at X n (i_block + ii) \<noteq> invalid_row
        then map (\<lambda>jj. (if perm_flush X n (i_block + ii) st then replicate nj 0 else ps_val st) ! jj
                       + perm_tmp X u n (getPerm X (i_block + ii) n)
                                        (value X (getPerm X (i_block + ii) n)) j nj ! jj) [0..<nj]
        else (if perm_flush X n (i_block + ii) st then replicate nj 0 else ps_val st))"
  "ps_first_row (perm_iter X u n i_block j nj ii st)
     = (if ii = 0 then perm_row_at X n (i_block + ii) else ps_first_row st)"
  "ps_log (perm_iter X u n i_block j nj ii st)
     = (if perm_flush X n (i_block + ii) st
        then ps_log st @ [(ps_row_prev st,
               ps_row_prev st = (if ii = 0 then perm_row_at X n (i_block + ii) else ps_first_row st))]
        else ps_log st)"
  unfolding perm_flush_def perm_row_at_def perm_iter_def Let_def store_plus_eq
  by simp_all








subsection \<open>The log of a team\<close>












section \<open>The row-indexed kernel, and the agreement of the three variants\<close>














lemma createRowPtr_fields [simp]:
  "siz (createRowPtr sched garbage X) = siz X"
  "subs (createRowPtr sched garbage X) = subs X"
  "vals (createRowPtr sched garbage X) = vals X"
  "perm (createRowPtr sched garbage X) = perm X"
  by (simp_all add: createRowPtr_def)

lemma createRowPtr_accessors [simp]:
  "nnz (createRowPtr sched garbage X) = nnz X"
  "ndims (createRowPtr sched garbage X) = ndims X"
  "subscript (createRowPtr sched garbage X) = subscript X"
  "getPerm (createRowPtr sched garbage X) = getPerm X"
  "value (createRowPtr sched garbage X) = value X"
  by (simp_all add: nnz_def ndims_def subscript_def getPerm_def value_def fun_eq_iff)







section \<open>Inputs on which the teams race\<close>

text \<open>
  The hypotheses of the agreement of the variants are needed: when the permutation is not
  sorted, a row that one team of the permuted kernel updates by \<open>store_plus\<close> can be a row
  of another team, and when the row pointer is not that of the permutation, two teams of
  the row-indexed kernel can update the same row.
\<close>

lemma perm_iter_log_mono:
  "set (ps_log st) \<subseteq> set (ps_log (perm_iter X u n i_block j nj ii st))"
  by (simp add: perm_iter_proj(6)) auto

lemma perm_fold_log_mono:
  "set (ps_log st) \<subseteq> set (ps_log (fold (perm_iter X u n i_block j nj) is st))"
proof (induction "is" arbitrary: st)
  case Nil
  then show ?case by simp
next
  case (Cons i "is")
  show ?case
    using perm_iter_log_mono [of st X u n i_block j nj i]
      Cons [of "perm_iter X u n i_block j nj i st"] by auto
qed

lemma perm_fold_first_row:
  "ps_first_row (fold (perm_iter X u n i_block j nj) [0..<Suc k] st) = perm_row_at X n i_block"
  by (induction k) (simp_all add: perm_iter_proj(5))

lemma MTTKRP_PermKernelBlock_run_logs_flush:
  assumes ii: "ii + 1 < RB" and r: "perm_row_at X n (i_block + ii) = r" "r \<noteq> invalid_row"
    and nxt: "perm_row_at X n (i_block + ii + 1) \<noteq> r"
  shows "(r, r = perm_row_at X n i_block)
           \<in> set (snd (MTTKRP_PermKernelBlock_run RB X u n i_block j nj vl))"
proof -
  define st0 where "st0 = \<lparr>ps_row_prev = invalid_row, ps_row = invalid_row,
      ps_first_row = invalid_row, ps_p = invalid_row, ps_x_val = 0, ps_val = replicate nj 0,
      ps_v = fst vl, ps_log = []\<rparr>\<lparr>ps_log := snd vl\<rparr>"
  define f where "f = perm_iter X u n i_block j nj"
  define A where "A = fold f [0..<Suc ii] st0"
  have st0: "st0 = \<lparr>ps_row_prev = invalid_row, ps_row = invalid_row,
      ps_first_row = invalid_row, ps_p = invalid_row, ps_x_val = 0, ps_val = replicate nj 0,
      ps_v = fst vl, ps_log = snd vl\<rparr>"
    by (simp add: st0_def)
  have split: "[0..<RB] = [0..<Suc ii] @ Suc ii # [Suc (Suc ii)..<RB]"
  proof -
    obtain k where k: "RB = Suc ii + k" using ii le_Suc_ex [of "Suc ii" RB] by auto
    have "[0..<RB] = [0..<Suc ii] @ [Suc ii..<RB]"
      unfolding k by (rule upt_add_eq_append) simp
    also have "[Suc ii..<RB] = Suc ii # [Suc (Suc ii)..<RB]"
      using ii by (simp add: upt_rec [of "Suc ii"])
    finally show ?thesis .
  qed
  have whole: "fold f [0..<RB] st0 = fold f [Suc (Suc ii)..<RB] (f (Suc ii) A)"
    unfolding split A_def by simp
  have Ap: "ps_row_prev A = r"
    unfolding A_def f_def using r(1) by (simp add: perm_iter_proj(2))
  have Af: "ps_first_row A = perm_row_at X n i_block"
    unfolding A_def f_def by (rule perm_fold_first_row)
  have fl: "perm_flush X n (i_block + Suc ii) A"
    using nxt r(2) Ap by (simp add: perm_flush_def)
  have "(r, r = perm_row_at X n i_block) \<in> set (ps_log (f (Suc ii) A))"
    unfolding f_def using fl Ap Af by (simp add: perm_iter_proj(6))
  then have "(r, r = perm_row_at X n i_block)
      \<in> set (ps_log (fold f [Suc (Suc ii)..<RB] (f (Suc ii) A)))"
    using perm_fold_log_mono [of "f (Suc ii) A" X u n i_block j nj "[Suc (Suc ii)..<RB]"]
    unfolding f_def by blast
  then have "(r, r = perm_row_at X n i_block) \<in> set (ps_log (fold f [0..<RB] st0))"
    unfolding whole .
  then show ?thesis
    unfolding MTTKRP_PermKernelBlock_run_def Let_def f_def st0 by simp
qed

lemma conflictI:
  "(r, False) \<in> set l \<Longrightarrow> (r, a') \<in> set l' \<Longrightarrow> conflict l l'"
  unfolding conflict_def list_ex_iff by force

lemma race_freeD:
  assumes "race_free logs" "t < length logs" "t' < length logs" "t \<noteq> t'"
  shows "\<not> conflict (logs ! t) (logs ! t')"
proof -
  have "t \<in> set [0..<length logs]" "t' \<in> set [0..<length logs]"
    using assms(2,3) by simp_all
  with assms(1) have "t = t' \<or> \<not> conflict (logs ! t) (logs ! t')"
    unfolding race_free_def list_all_iff by blast
  with assms(4) show ?thesis by simp
qed

lemma parallel_for_teams_race:
  assumes t: "t < N" "t' < N" "t \<noteq> t'"
    and a: "\<And>v. (r, False) \<in> set (snd (team t v))"
    and b: "\<And>v. (r, a') \<in> set (snd (team t' v))"
  shows "parallel_for_teams [0..<N] team v name = Inl (DataRace name)"
proof -
  let ?F = "\<lambda>league (v, logs). let (v', lg) = team league v in (v', logs @ [lg])"
  let ?res = "fold ?F [0..<N] (v, [])"
  define Q where "Q L l \<longleftrightarrow> (L = t \<longrightarrow> (r, False) \<in> set l) \<and> (L = t' \<longrightarrow> (r, a') \<in> set l)"
    for L and l :: "access list"
  have "\<exists>ls. snd ?res = [] @ ls \<and> length ls = length [0..<N] \<and>
          (\<forall>i<length [0..<N]. Q ([0..<N] ! i) (ls ! i))"
    by (rule teams_fold_logs) (simp add: Q_def a b)
  then have len: "length (snd ?res) = N"
    and all: "\<And>L. L < N \<Longrightarrow> Q L (snd ?res ! L)"
    by auto
  have "conflict (snd ?res ! t) (snd ?res ! t')"
    using all [OF t(1)] all [OF t(2)] by (auto simp: Q_def intro: conflictI)
  then have "\<not> race_free (snd ?res)"
    using race_freeD [of "snd ?res" t t'] t len by auto
  moreover have "parallel_for_teams [0..<N] team v name
      = (if race_free (snd ?res) then Inr (fst ?res) else Inl (DataRace name))"
    by (simp add: parallel_for_teams_def Let_def split_def)
  ultimately show ?thesis by simp
qed

lemma unsorted_rows:
  "perm_row_at unsorted_X 0 0 = 0" "perm_row_at unsorted_X 0 1 = 1"
  "perm_row_at unsorted_X 0 2 = 2" "perm_row_at unsorted_X 0 128 = 1"
  "perm_row_at unsorted_X 0 129 = invalid_row"
  by (simp_all add: perm_row_at_def unsorted_X_def nnz_def getPerm_def subscript_def
      nth_append nth_Cons')

text \<open>
  The permutation of \<open>unsorted_X\<close> is not sorted: the first team updates row 1 plainly, in
  the middle of its block, and the second team starts with row 1.
\<close>

lemma mttkrp_perm_unsorted_race:
  "mttkrp_perm unsorted_X unit_U 0 (mat31 5 5 5)
     = Inl (DataRace ''Genten::mttkrp_perm_kernel'')"
proof -
  have a: "mttkrp_asserts unsorted_X unit_U 0 (mat31 5 5 5) = None"
    by (simp add: mttkrp_asserts_def unsorted_X_def unit_U_def mat31_def ndims_def ndims_k_def
        isConsistent_def ncomponents_def)
  have nc: "ncomponents unit_U = 1" by (simp add: unit_U_def ncomponents_def)
  have N: "league_ranks ((nnz unsorted_X + 1 * 128 - 1) div (1 * 128)) = [0..<2]"
    by (simp add: league_ranks_def to_int_def unsorted_X_def nnz_def)
  have inv: "(1::nat) \<noteq> invalid_row" by (simp add: invalid_row_def)
  have team: "fac_blocks (Suc 0) (Suc 0) run 0 vl = run 0 (Suc 0) vl"
    for run :: "nat \<Rightarrow> nat \<Rightarrow> FacMatrix \<times> access list \<Rightarrow> FacMatrix \<times> access list" and vl
    by (subst fac_blocks.simps, simp, subst fac_blocks.simps, simp)
  have e: "(0::nat) + 1 = 1" "(1::nat) + 1 = 2" "(128::nat) + 0 = 128" "(128::nat) + 1 = 129"
    by simp_all
  have l0: "(1, False) \<in> set (snd (MTTKRP_PermKernelBlock_run 128 unsorted_X unit_U 0 0 0 (Suc 0) vl))"
    for vl
  proof -
    have "(1, (1::nat) = perm_row_at unsorted_X 0 0)
        \<in> set (snd (MTTKRP_PermKernelBlock_run 128 unsorted_X unit_U 0 0 0 (Suc 0) vl))"
    proof (rule MTTKRP_PermKernelBlock_run_logs_flush [where ii = 1])
      show "(1::nat) + 1 < 128" by simp
      show "perm_row_at unsorted_X 0 (0 + 1) = 1" by (simp only: e unsorted_rows)
      show "(1::nat) \<noteq> invalid_row" by (rule inv)
      show "perm_row_at unsorted_X 0 (0 + 1 + 1) \<noteq> 1" by (simp only: e unsorted_rows; simp)
    qed
    then show ?thesis by (simp only: unsorted_rows; simp)
  qed
  have l1: "(1, True) \<in> set (snd (MTTKRP_PermKernelBlock_run 128 unsorted_X unit_U 0 128 0 (Suc 0) vl))"
    for vl
  proof -
    have "(1, (1::nat) = perm_row_at unsorted_X 0 128)
        \<in> set (snd (MTTKRP_PermKernelBlock_run 128 unsorted_X unit_U 0 128 0 (Suc 0) vl))"
    proof (rule MTTKRP_PermKernelBlock_run_logs_flush [where ii = 0])
      show "(0::nat) + 1 < 128" by simp
      show "perm_row_at unsorted_X 0 (128 + 0) = 1" by (simp only: e unsorted_rows)
      show "(1::nat) \<noteq> invalid_row" by (rule inv)
      show "perm_row_at unsorted_X 0 (128 + 0 + 1) \<noteq> 1"
        using inv by (simp only: e unsorted_rows; simp)
    qed
    then show ?thesis by (simp only: unsorted_rows; simp)
  qed
  have "mttkrp_perm_league (Suc 0) unsorted_X unit_U 0 w
      = Inl (DataRace ''Genten::mttkrp_perm_kernel'')" for w
    unfolding mttkrp_perm_league_def Let_def N
    by (rule parallel_for_teams_race [of 0 2 1 1 _ True])
       (simp_all add: nc team to_unsigned_def l0 [simplified] l1 [simplified])
  then show ?thesis
    by (simp add: mttkrp_perm_def a Let_def nc mttkrp_perm_kernel_def)
qed

text \<open>
  The row pointer of \<open>scenarioA_badptr\<close> gives row 0 the position 0 only, and row 1 the
  positions 1 and 2, the first of which holds a nonzero of row 0: both teams update row 0.
\<close>

lemma mttkrp_row_badptr_race:
  "mttkrp_row scenarioA_badptr scenarioA_U_ones 0 (mat21 7 9)
     = Inl (DataRace ''Genten::mttkrp_row_kernel'')"
  by (simp add: mttkrp_row_def mttkrp_asserts_def scenarioA_badptr_def scenarioA_row_def
      scenarioA_U_ones_def mat21_def ndims_def ndims_k_def isConsistent_def ncomponents_def
      Let_def league_ranks_def to_int_def parallel_for_teams_def mttkrp_row_team_def
      getPermRowBegin_def getPerm_def subscript_def mttkrp_row_val_def value_def entry_def
      plain_add_def assign_scalar_def race_free_def conflict_def upt_rec)

section \<open>Properties of the CP-ALS driver\<close>


subsection \<open>The main loop\<close>

lemma cpals_loop_char:
  "cpals_loop body maxIters i st = Inr (k, st') \<Longrightarrow> cpals_run body i st0 = Inr st \<Longrightarrow>
   (\<forall>j<i. \<not> breaks_at body st0 j) \<Longrightarrow> i \<le> maxIters \<Longrightarrow>
   (k < maxIters \<and> breaks_at body st0 k \<and> (\<forall>j<k. \<not> breaks_at body st0 j) \<and>
      cpals_run body (Suc k) st0 = Inr st') \<or>
   (k = maxIters \<and> (\<forall>j<maxIters. \<not> breaks_at body st0 j) \<and>
      cpals_run body maxIters st0 = Inr st')"
proof (induction body maxIters i st rule: cpals_loop.induct)
  case (1 body maxIters numIters st)
  show ?case
  proof (cases "numIters < maxIters")
    case False
    with 1(5) have e: "numIters = maxIters" by simp
    from 1(2) False have "k = numIters" "st' = st"
      by (simp_all add: cpals_loop.simps [of body maxIters numIters st])
    with e 1(3,4) show ?thesis by simp
  next
    case True
    from 1(2) True obtain s stop where b: "body numIters st = Inr (s, stop)"
      by (cases "body numIters st") (auto simp: cpals_loop.simps [of body maxIters numIters st])
    have run: "cpals_run body (Suc numIters) st0 = Inr s"
      using 1(3) b by simp
    have br: "breaks_at body st0 numIters = stop"
      using 1(3) b by (simp add: breaks_at_def)
    show ?thesis
    proof (cases stop)
      case True
      from 1(2) \<open>numIters < maxIters\<close> b True have "k = numIters" "st' = s"
        by (simp_all add: cpals_loop.simps [of body maxIters numIters st])
      with \<open>numIters < maxIters\<close> br True run 1(4) show ?thesis by simp
    next
      case False
      from 1(2) \<open>numIters < maxIters\<close> b False
      have l: "cpals_loop body maxIters (numIters + 1) s = Inr (k, st')"
        by (simp add: cpals_loop.simps [of body maxIters numIters st])
      have nb: "\<forall>j<numIters + 1. \<not> breaks_at body st0 j"
        using 1(4) br False by (auto simp: less_Suc_eq)
      from 1(1) [OF \<open>numIters < maxIters\<close> b refl False l] run nb \<open>numIters < maxIters\<close>
      show ?thesis by simp
    qed
  qed
qed

lemma cpals_loop_break:
  "cpals_run body i st0 = Inr st \<Longrightarrow> i \<le> k \<Longrightarrow> k < maxIters \<Longrightarrow> breaks_at body st0 k \<Longrightarrow>
   (\<forall>j<k. \<not> breaks_at body st0 j) \<Longrightarrow> cpals_run body (Suc k) st0 = Inr st' \<Longrightarrow>
   cpals_loop body maxIters i st = Inr (k, st')"
proof (induction body maxIters i st rule: cpals_loop.induct)
  case (1 body maxIters numIters st)
  from 1(3,4) have lt: "numIters < maxIters" by simp
  show ?case
  proof (cases "numIters = k")
    case True
    from 1(2,7) True obtain stop where b: "body numIters st = Inr (st', stop)"
      by (cases "body k st") (auto split: prod.splits)
    from 1(2,5) True b have stop by (simp add: breaks_at_def)
    with b lt True show ?thesis
      by (simp add: cpals_loop.simps [of body maxIters k st])
  next
    case False
    with 1(3) have lk: "numIters < k" by simp
    have ok: "\<exists>s. cpals_run body (Suc numIters) st0 = Inr s"
    proof -
      have "\<And>m. cpals_run body m st0 = Inl e \<Longrightarrow> cpals_run body (Suc m) st0 = Inl e" for e
        by simp
      have mono: "(\<exists>e. cpals_run body m st0 = Inl e) \<Longrightarrow> m \<le> n \<Longrightarrow> (\<exists>e. cpals_run body n st0 = Inl e)" for m n
        by (induction n) (auto simp: le_Suc_eq)
      show ?thesis
      proof (cases "cpals_run body (Suc numIters) st0")
        case (Inl e)
        with mono [of "Suc numIters" "Suc k"] lk 1(7) show ?thesis by auto
      qed simp
    qed
    then obtain s where run: "cpals_run body (Suc numIters) st0 = Inr s" ..
    with 1(2) obtain stop where b: "body numIters st = Inr (s, stop)"
      by (cases "body numIters st") (auto split: prod.splits)
    from 1(6) lk have "\<not> breaks_at body st0 numIters" by simp
    with 1(2) b have ns: "\<not> stop" by (simp add: breaks_at_def)
    from 1(1) [OF lt b refl ns] run lk 1(4,5,6,7)
    have "cpals_loop body maxIters (numIters + 1) s = Inr (k, st')" by simp
    with lt b ns show ?thesis
      by (simp add: cpals_loop.simps [of body maxIters numIters st])
  qed
qed

lemma cpals_loop_exhaust:
  "cpals_run body i st0 = Inr st \<Longrightarrow> i \<le> maxIters \<Longrightarrow>
   (\<forall>j<maxIters. \<not> breaks_at body st0 j) \<Longrightarrow> cpals_run body maxIters st0 = Inr st' \<Longrightarrow>
   cpals_loop body maxIters i st = Inr (maxIters, st')"
proof (induction body maxIters i st rule: cpals_loop.induct)
  case (1 body maxIters numIters st)
  show ?case
  proof (cases "numIters = maxIters")
    case True
    with 1(2,5) show ?thesis
      by (simp add: cpals_loop.simps [of body maxIters maxIters st])
  next
    case False
    with 1(3) have lt: "numIters < maxIters" by simp
    have mono: "(\<exists>e. cpals_run body m st0 = Inl e) \<Longrightarrow> m \<le> n \<Longrightarrow> (\<exists>e. cpals_run body n st0 = Inl e)" for m n
      by (induction n) (auto simp: le_Suc_eq)
    have "\<exists>s. cpals_run body (Suc numIters) st0 = Inr s"
    proof (cases "cpals_run body (Suc numIters) st0")
      case (Inl e)
      with mono [of "Suc numIters" maxIters] lt 1(5) show ?thesis by auto
    qed simp
    then obtain s where run: "cpals_run body (Suc numIters) st0 = Inr s" ..
    with 1(2) obtain stop where b: "body numIters st = Inr (s, stop)"
      by (cases "body numIters st") (auto split: prod.splits)
    from 1(4) lt have "\<not> breaks_at body st0 numIters" by simp
    with 1(2) b have ns: "\<not> stop" by (simp add: breaks_at_def)
    from 1(1) [OF lt b refl ns] run lt 1(4,5)
    have "cpals_loop body maxIters (numIters + 1) s = Inr (maxIters, st')" by simp
    with lt b ns show ?thesis
      by (simp add: cpals_loop.simps [of body maxIters numIters st])
  qed
qed

subsection \<open>A run on the smallest input\<close>

lemmas tiny_eval =
  tiny_x_def tiny_u_def plain_layer_def tiny_st0_def tiny_st1_def tiny_out_def
  cpals_checks_def cpals_init_def
  cpals_iter_def cpals_mode_def cpals_finish_def
  distribute_def norm_x_def array_times_def set_factor_def
  isConsistent_def isConsistent_siz_def ncomponents_def ndims_def ndims_k_def nnz_def
  mttkrp_def mttkrp_asserts_def mttkrp_kernel_def MTTKRP_KernelBlock_run_def mttkrp_tmp_def
  innerprod_def innerprod_kernel_def InnerProductKernel_run_def innerprod_tmp_def
  computeResNorm_def DBL_MIN_def
  assign_scalar_def atomic_add_def entry_def subscript_def value_def fac_blocks.simps
  Let_def upt_rec real_sqrt_divide league_ranks_def to_int_def to_unsigned_def

lemma tiny_checks: "cpals_checks tiny_x (tiny_u w) 0 None = None"
  by (simp add: tiny_eval)

lemma tiny_init: "cpals_init plain_layer (1/4) tiny_x (tiny_u 3) m 0 0 None = Inr tiny_st0"
  by (simp add: tiny_eval)

lemma tiny_iter0: "tiny_body tol 0 tiny_st0 = Inr (tiny_st1, False)"
  by (simp add: tiny_eval)

lemma tiny_iter1: "tiny_body tol n tiny_st1 = Inr (tiny_st1, 0 < n \<and> 0 < tol)"
  by (simp add: tiny_eval)

lemma tiny_run: "cpals_run (tiny_body tol) (Suc k) tiny_st0 = Inr tiny_st1"
  by (induction k) (simp_all add: tiny_iter0 tiny_iter1)

lemma tiny_breaks: "breaks_at (tiny_body tol) tiny_st0 k \<longleftrightarrow> 0 < k \<and> 0 < tol"
proof (cases k)
  case 0
  then show ?thesis by (simp add: breaks_at_def tiny_iter0)
next
  case (Suc m)
  then show ?thesis by (simp add: breaks_at_def tiny_iter1 tiny_run del: cpals_run.simps)
qed


subsection \<open>Argument checks\<close>












text \<open>
  Claim C10.  Let the argument checks pass and the initialisation give the state \<open>st0\<close>, and
  let \<open>body\<close> be the loop body of this call.  If the exit check first fires in the pass with
  index \<open>k < maxIters\<close>, all passes up to it having returned, then \<open>cpals_core\<close> returns the
  state after these \<open>k + 1\<close> passes and \<open>numIters = k + 1\<close>, the number of passes run.  If the
  exit check fires in none of the \<open>maxIters\<close> passes, all of them having returned, then
  \<open>cpals_core\<close> returns the state after \<open>maxIters\<close> passes and \<open>numIters = maxIters + 1\<close>, one more
  than the number of passes run.  Every call that returns is one of the two.
\<close>

theorem cpals_core_numIters:
  assumes "cpals_checks x u perfIter perfInfo = None"
    and "cpals_init D eps x u maxIters resNorm perfIter perfInfo = Inr st0"
    and "body = cpals_iter mttkrp_T D eps x tol maxSecs perfIter"
  shows
   "(k < maxIters \<and> breaks_at body st0 k \<and> (\<forall>j<k. \<not> breaks_at body st0 j) \<and>
       cpals_run body (Suc k) st0 = Inr st \<longrightarrow>
     cpals_core mttkrp_T D eps x u tol maxIters maxSecs resNorm perfIter perfInfo =
       Inr (cpals_finish D perfIter k st) \<and>
     r_numIters (cpals_finish D perfIter k st) = k + 1) \<and>
    ((\<forall>j<maxIters. \<not> breaks_at body st0 j) \<and> cpals_run body maxIters st0 = Inr st \<longrightarrow>
     cpals_core mttkrp_T D eps x u tol maxIters maxSecs resNorm perfIter perfInfo =
       Inr (cpals_finish D perfIter maxIters st) \<and>
     r_numIters (cpals_finish D perfIter maxIters st) = maxIters + 1) \<and>
    (\<forall>out. cpals_core mttkrp_T D eps x u tol maxIters maxSecs resNorm perfIter perfInfo = Inr out \<longrightarrow>
       (\<exists>k' st'. k' < maxIters \<and> breaks_at body st0 k' \<and> (\<forall>j<k'. \<not> breaks_at body st0 j) \<and>
                 cpals_run body (Suc k') st0 = Inr st' \<and> out = cpals_finish D perfIter k' st' \<and>
                 r_numIters out = k' + 1) \<or>
       (\<exists>st'. (\<forall>j<maxIters. \<not> breaks_at body st0 j) \<and> cpals_run body maxIters st0 = Inr st' \<and>
              out = cpals_finish D perfIter maxIters st' \<and> r_numIters out = maxIters + 1))"
proof (intro conjI impI allI)
  have core: "cpals_core mttkrp_T D eps x u tol maxIters maxSecs resNorm perfIter perfInfo =
      (case cpals_loop body maxIters 0 st0 of Inl e \<Rightarrow> Inl e
       | Inr (numIters, s) \<Rightarrow> Inr (cpals_finish D perfIter numIters s))"
    using assms by (simp add: cpals_core_def)
  have num: "r_numIters (cpals_finish D perfIter n s) = n + 1" for n s
    by (simp add: cpals_finish_def Let_def)
  {
    assume a: "k < maxIters \<and> breaks_at body st0 k \<and> (\<forall>j<k. \<not> breaks_at body st0 j) \<and>
       cpals_run body (Suc k) st0 = Inr st"
    have "cpals_loop body maxIters 0 st0 = Inr (k, st)"
      by (rule cpals_loop_break [where ?st0.0 = st0]) (use a in simp_all)
    then show "cpals_core mttkrp_T D eps x u tol maxIters maxSecs resNorm perfIter perfInfo =
       Inr (cpals_finish D perfIter k st)"
      by (simp add: core)
    show "r_numIters (cpals_finish D perfIter k st) = k + 1" by (rule num)
  }
  {
    assume a: "(\<forall>j<maxIters. \<not> breaks_at body st0 j) \<and> cpals_run body maxIters st0 = Inr st"
    have "cpals_loop body maxIters 0 st0 = Inr (maxIters, st)"
      by (rule cpals_loop_exhaust [where ?st0.0 = st0]) (use a in simp_all)
    then show "cpals_core mttkrp_T D eps x u tol maxIters maxSecs resNorm perfIter perfInfo =
       Inr (cpals_finish D perfIter maxIters st)"
      by (simp add: core)
    show "r_numIters (cpals_finish D perfIter maxIters st) = maxIters + 1" by (rule num)
  }
  {
    fix out
    assume "cpals_core mttkrp_T D eps x u tol maxIters maxSecs resNorm perfIter perfInfo = Inr out"
    then obtain n s where l: "cpals_loop body maxIters 0 st0 = Inr (n, s)"
      and o: "out = cpals_finish D perfIter n s"
      unfolding core by (auto split: sum.splits)
    have "cpals_run body 0 st0 = Inr st0" by simp
    from cpals_loop_char [OF l this]
    have "(n < maxIters \<and> breaks_at body st0 n \<and> (\<forall>j<n. \<not> breaks_at body st0 j) \<and>
             cpals_run body (Suc n) st0 = Inr s) \<or>
          (n = maxIters \<and> (\<forall>j<maxIters. \<not> breaks_at body st0 j) \<and>
             cpals_run body maxIters st0 = Inr s)"
      by simp
    then show "(\<exists>k' st'. k' < maxIters \<and> breaks_at body st0 k' \<and> (\<forall>j<k'. \<not> breaks_at body st0 j) \<and>
                 cpals_run body (Suc k') st0 = Inr st' \<and> out = cpals_finish D perfIter k' st' \<and>
                 r_numIters out = k' + 1) \<or>
       (\<exists>st'. (\<forall>j<maxIters. \<not> breaks_at body st0 j) \<and> cpals_run body maxIters st0 = Inr st' \<and>
              out = cpals_finish D perfIter maxIters st' \<and> r_numIters out = maxIters + 1)"
    proof (elim disjE)
      assume c: "n < maxIters \<and> breaks_at body st0 n \<and> (\<forall>j<n. \<not> breaks_at body st0 j) \<and>
             cpals_run body (Suc n) st0 = Inr s"
      show ?thesis
        by (rule disjI1, rule exI [of _ n], rule exI [of _ s]) (use c o num [of n s] in simp)
    next
      assume c: "n = maxIters \<and> (\<forall>j<maxIters. \<not> breaks_at body st0 j) \<and>
             cpals_run body maxIters st0 = Inr s"
      then have e: "n = maxIters" by simp
      show ?thesis
        by (rule disjI2, rule exI [of _ s]) (use c o num [of maxIters s] in \<open>simp add: e\<close>)
    qed
  }
qed

theorem cpals_core_numIters_witness:
  "cpals_core mttkrp plain_layer (1/4) tiny_x (tiny_u 3) (1/10) 5 (-1) 0 0 None =
     Inr (cpals_finish plain_layer 0 1 tiny_st1) \<and>
   r_numIters (cpals_finish plain_layer 0 1 tiny_st1) = 1 + 1 \<and>
   breaks_at (tiny_body (1/10)) tiny_st0 1 \<and> \<not> breaks_at (tiny_body (1/10)) tiny_st0 0 \<and>
   cpals_core mttkrp plain_layer (1/4) tiny_x (tiny_u 3) (1/10) 1 (-1) 0 0 None =
     Inr (cpals_finish plain_layer 0 1 tiny_st1) \<and>
   cpals_run (tiny_body (1/10)) 1 tiny_st0 = Inr tiny_st1"
proof -
  have b: "breaks_at (tiny_body (1/10)) tiny_st0 1" "\<not> breaks_at (tiny_body (1/10)) tiny_st0 0"
    "\<forall>j<1. \<not> breaks_at (tiny_body (1/10)) tiny_st0 j"
    by (simp_all add: tiny_breaks)
  have r: "cpals_run (tiny_body (1/10)) (Suc 1) tiny_st0 = Inr tiny_st1"
    "cpals_run (tiny_body (1/10)) 1 tiny_st0 = Inr tiny_st1"
    using tiny_run [of "1/10" 1] tiny_run [of "1/10" 0] by simp_all
  have l: "(1::nat) < 5" by simp
  note A = cpals_core_numIters [where mttkrp_T = mttkrp and D = plain_layer and eps = "1/4"
      and x = tiny_x and u = "tiny_u 3" and tol = "1/10" and maxIters = 5 and maxSecs = "-1"
      and resNorm = 0 and perfIter = 0 and perfInfo = None and k = 1 and st = tiny_st1
      and ?st0.0 = tiny_st0, OF tiny_checks tiny_init refl]
  note B = cpals_core_numIters [where mttkrp_T = mttkrp and D = plain_layer and eps = "1/4"
      and x = tiny_x and u = "tiny_u 3" and tol = "1/10" and maxIters = 1 and maxSecs = "-1"
      and resNorm = 0 and perfIter = 0 and perfInfo = None and k = 0 and st = tiny_st1
      and ?st0.0 = tiny_st0, OF tiny_checks tiny_init refl]
  from A have "(1::nat) < 5 \<and> breaks_at (tiny_body (1/10)) tiny_st0 1 \<and>
      (\<forall>j<1. \<not> breaks_at (tiny_body (1/10)) tiny_st0 j) \<and>
      cpals_run (tiny_body (1/10)) (Suc 1) tiny_st0 = Inr tiny_st1 \<longrightarrow>
      cpals_core mttkrp plain_layer (1/4) tiny_x (tiny_u 3) (1/10) 5 (-1) 0 0 None =
        Inr (cpals_finish plain_layer 0 1 tiny_st1) \<and>
      r_numIters (cpals_finish plain_layer 0 1 tiny_st1) = 1 + 1"
    by (rule conjunct1)
  then have a: "cpals_core mttkrp plain_layer (1/4) tiny_x (tiny_u 3) (1/10) 5 (-1) 0 0 None =
        Inr (cpals_finish plain_layer 0 1 tiny_st1) \<and>
      r_numIters (cpals_finish plain_layer 0 1 tiny_st1) = 1 + 1"
    by (rule mp) (intro conjI l b(1) b(3) r(1))
  from B have "(\<forall>j<1. \<not> breaks_at (tiny_body (1/10)) tiny_st0 j) \<and>
      cpals_run (tiny_body (1/10)) 1 tiny_st0 = Inr tiny_st1 \<longrightarrow>
      cpals_core mttkrp plain_layer (1/4) tiny_x (tiny_u 3) (1/10) 1 (-1) 0 0 None =
        Inr (cpals_finish plain_layer 0 1 tiny_st1) \<and>
      r_numIters (cpals_finish plain_layer 0 1 tiny_st1) = 1 + 1"
    by (elim conjE)
  then have c: "cpals_core mttkrp plain_layer (1/4) tiny_x (tiny_u 3) (1/10) 1 (-1) 0 0 None =
        Inr (cpals_finish plain_layer 0 1 tiny_st1) \<and>
      r_numIters (cpals_finish plain_layer 0 1 tiny_st1) = 1 + 1"
    by (rule mp) (intro conjI b(3) r(2))
  from a c b(1,2) r(2) show ?thesis by (intro conjI) (elim conjE, assumption)+
qed

subsection \<open>The weights of the initial guess\<close>

lemma ncomponents_distribute [simp]: "ncomponents (distribute u i) = ncomponents u"
  by (simp add: distribute_def ncomponents_def)

lemma ndims_k_distribute [simp]: "ndims_k (distribute u i) = ndims_k u"
  by (simp add: distribute_def ndims_k_def)



lemma nRows_distribute [simp]:
  "nRows (factors (distribute u i) ! n) = nRows (factors u ! n)"
proof (cases "i < length (factors u)")
  case True
  then show ?thesis by (cases "n = i") (simp_all add: distribute_def)
next
  case False
  then show ?thesis by (simp add: distribute_def list_update_beyond)
qed

lemma nCols_distribute [simp]:
  "nCols (factors (distribute u i) ! n) = nCols (factors u ! n)"
proof (cases "i < length (factors u)")
  case True
  then show ?thesis by (cases "n = i") (simp_all add: distribute_def)
next
  case False
  then show ?thesis by (simp add: distribute_def list_update_beyond)
qed

lemma isConsistent_distribute [simp]: "isConsistent (distribute u i) = isConsistent u"
proof -
  have "list_all (\<lambda>M. nCols M = c) (factors (distribute u i)) = list_all (\<lambda>M. nCols M = c) (factors u)" for c
  proof -
    have l: "length (factors (distribute u i)) = length (factors u)"
      by (simp add: distribute_def)
    show ?thesis
      unfolding list_all_length l by simp
  qed
  then show ?thesis by (simp add: isConsistent_def)
qed










section \<open>Beyond the 32-bit range\<close>

































end
